theory Spec2Isabelle
  imports Main
begin

section \<open>Characters and string helpers\<close>

text \<open>
  JavaScript strings are modelled as \<open>string\<close> (character lists); a \<open>char\<close> is a UTF-16
  code unit below 256, so the strings of the model are the Latin-1 texts, all of them
  well-formed: the \<open>utf8\<close> encoding of a file write and a file read gives them back
  unchanged. The characters with a syntactic role in the shell are named here; they are
  abbreviations, so every term shows the character itself.
\<close>

abbreviation SQUOTE :: char where "SQUOTE \<equiv> CHR 0x27"
abbreviation DQUOTE :: char where "DQUOTE \<equiv> CHR 0x22"
abbreviation BACKSLASH :: char where "BACKSLASH \<equiv> CHR 0x5C"
abbreviation TAB :: char where "TAB \<equiv> CHR 0x09"
abbreviation SPACE :: char where "SPACE \<equiv> CHR 0x20"
abbreviation NEWLINE :: char where "NEWLINE \<equiv> CHR 0x0A"

section \<open>Tokenizer: \<open>parseCommandLine\<close> (app/parsers/commandParser.js)\<close>

text \<open>
  The loop variables of \<open>parseCommandLine\<close>. The index \<open>i\<close> into \<open>input\<close> is kept as
  the unread suffix \<open>rest = input.slice(i)\<close>: \<open>input[i]\<close> is its head, \<open>input[i + 1]\<close>
  the head of its tail, and \<open>i < input.length\<close> is \<open>rest \<noteq> []\<close>.
\<close>

record tokenizer =
  rest :: string
  tokens :: "string list"
  currentToken :: string
  inSingleQuotes :: bool
  inDoubleQuotes :: bool

definition is_blank :: "char \<Rightarrow> bool" where
  "is_blank c = (c = SPACE \<or> c = TAB)"

text \<open>
  Sections 3 and 4 of the loop body, for the quote character \<open>q\<close>: \<open>here\<close> is the flag of
  this kind of quote and \<open>after1\<close> is \<open>input.slice(i + 1)\<close>. The result is the new flag and
  the new unread suffix. After a closing quote the source looks at \<open>input[i]\<close> again
  (after \<open>i++\<close>) for a quote that opens the next quoted run.
\<close>

definition quote_section :: "char \<Rightarrow> bool \<Rightarrow> string \<Rightarrow> bool \<times> string" where
  "quote_section q here after1 =
     (if here then
        (if after1 \<noteq> [] \<and> hd after1 = q then (here, tl after1)
         else (if after1 \<noteq> [] \<and> hd after1 = q then (True, tl after1) else (False, after1)))
      else
        (if after1 \<noteq> [] \<and> hd after1 = q then (here, tl after1)
         else (True, after1)))"

text \<open>One iteration of the \<open>while (i < input.length)\<close> body.\<close>

definition tok_step :: "tokenizer \<Rightarrow> tokenizer" where
  "tok_step s =
     (case rest s of
        [] \<Rightarrow> s
      | char # after1 \<Rightarrow>
          if char = BACKSLASH \<and> inDoubleQuotes s \<and> \<not> inSingleQuotes s then
            (case after1 of
               nextChar # after2 \<Rightarrow>
                 if nextChar = DQUOTE then
                   s\<lparr>currentToken := currentToken s @ [DQUOTE], rest := after2\<rparr>
                 else if nextChar = BACKSLASH then
                   s\<lparr>currentToken := currentToken s @ [BACKSLASH], rest := after2\<rparr>
                 else
                   s\<lparr>currentToken := currentToken s @ [BACKSLASH, nextChar], rest := after2\<rparr>
             | [] \<Rightarrow> s\<lparr>currentToken := currentToken s @ [char], rest := after1\<rparr>)
          else if char = BACKSLASH \<and> \<not> inSingleQuotes s \<and> \<not> inDoubleQuotes s then
            (case after1 of
               nextChar # after2 \<Rightarrow>
                 s\<lparr>currentToken := currentToken s @ [nextChar], rest := after2\<rparr>
             | [] \<Rightarrow> s\<lparr>currentToken := currentToken s @ [char], rest := after1\<rparr>)
          else if char = SQUOTE \<and> \<not> inDoubleQuotes s then
            (case quote_section SQUOTE (inSingleQuotes s) after1 of
               (flag, r) \<Rightarrow> s\<lparr>inSingleQuotes := flag, rest := r\<rparr>)
          else if char = DQUOTE \<and> \<not> inSingleQuotes s then
            (case quote_section DQUOTE (inDoubleQuotes s) after1 of
               (flag, r) \<Rightarrow> s\<lparr>inDoubleQuotes := flag, rest := r\<rparr>)
          else if inSingleQuotes s \<or> inDoubleQuotes s then
            s\<lparr>currentToken := currentToken s @ [char], rest := after1\<rparr>
          else if is_blank char then
            (if currentToken s \<noteq> [] then
               s\<lparr>tokens := tokens s @ [currentToken s], currentToken := [],
                 rest := dropWhile is_blank (rest s)\<rparr>
             else s\<lparr>rest := dropWhile is_blank (rest s)\<rparr>)
          else s\<lparr>currentToken := currentToken s @ [char], rest := after1\<rparr>)"

lemma quote_section_rest:
  "quote_section q here after1 = (flag, r) \<Longrightarrow> length r \<le> length after1"
  by (cases after1) (auto simp: quote_section_def split: if_splits)

lemma tok_step_decreases:
  assumes "rest s \<noteq> []"
  shows "length (rest (tok_step s)) < length (rest s)"
proof -
  from assms obtain char after1 where r: "rest s = char # after1"
    by (cases "rest s") auto
  have d: "length (dropWhile is_blank after1) < Suc (length after1)"
    using length_dropWhile_le [of is_blank after1] by simp
  have q: "length (rest (case quote_section c h after1 of (flag, r) \<Rightarrow> f flag r)) < Suc (length after1)"
    if "\<And>flag r. rest (f flag r) = r" for c h and f :: "bool \<Rightarrow> string \<Rightarrow> tokenizer"
  proof (cases "quote_section c h after1")
    case (Pair flag r')
    with quote_section_rest [OF Pair] that show ?thesis by simp
  qed
  show ?thesis
    unfolding tok_step_def r list.case
    by (simp add: q d split: list.split)
qed

function tok_loop :: "tokenizer \<Rightarrow> tokenizer" where
  "tok_loop s = (if rest s = [] then s else tok_loop (tok_step s))"
  by pat_completeness auto
termination
  by (relation "measure (\<lambda>s. length (rest s))") (simp_all add: tok_step_decreases)

declare tok_loop.simps [simp del]

definition parseCommandLine :: "string \<Rightarrow> string list" where
  "parseCommandLine input =
     (let s = tok_loop \<lparr>rest = input, tokens = [], currentToken = [],
                        inSingleQuotes = False, inDoubleQuotes = False\<rparr>
      in if currentToken s \<noteq> [] then tokens s @ [currentToken s] else tokens s)"

lemma tok_loop_done: "rest s = [] \<Longrightarrow> tok_loop s = s"
  by (simp add: tok_loop.simps)

lemma tok_loop_unroll: "rest s \<noteq> [] \<Longrightarrow> tok_loop s = tok_loop (tok_step s)"
  by (subst tok_loop.simps) simp

subsection \<open>The state machine of the specification\<close>

text \<open>
  Section 4.A of the specification describes the tokenizer as a state machine with the
  states Normal, InSingle and InDouble. The function \<open>spec_lex\<close> below is written from
  that description, not from the source: it reads the line in the given state and returns
  what the description says happens to every character. A character is either consumed
  as syntax (no item), ends the current token (\<open>Separator\<close>, for a maximal run of spaces
  and tabs read in state Normal), or is appended to the current token (\<open>Payload\<close>). A
  payload character is labelled with how it was read: \<open>Bare\<close> in state Normal without a
  backslash before it, \<open>Escaped\<close> when a backslash that was consumed stood before it, and
  \<open>Quoted\<close> when it was read as it stands in state InSingle or InDouble.
\<close>

datatype mode = Normal | InSingle | InDouble

datatype kind = Bare | Quoted | Escaped

datatype item = Separator | Payload char kind

function spec_lex :: "mode \<Rightarrow> string \<Rightarrow> item list" where
  "spec_lex Normal [] = []"
| "spec_lex Normal (c # cs) =
     (if c = SQUOTE then
        (if cs \<noteq> [] \<and> hd cs = SQUOTE then spec_lex Normal (tl cs) else spec_lex InSingle cs)
      else if c = DQUOTE then
        (if cs \<noteq> [] \<and> hd cs = DQUOTE then spec_lex Normal (tl cs) else spec_lex InDouble cs)
      else if c = BACKSLASH then
        (case cs of
           [] \<Rightarrow> [Payload BACKSLASH Bare]
         | e # cs' \<Rightarrow> Payload e Escaped # spec_lex Normal cs')
      else if is_blank c then Separator # spec_lex Normal (dropWhile is_blank cs)
      else Payload c Bare # spec_lex Normal cs)"
| "spec_lex InSingle [] = []"
| "spec_lex InSingle (c # cs) =
     (if c = SQUOTE then
        (if cs \<noteq> [] \<and> hd cs = SQUOTE then spec_lex InSingle (tl cs) else spec_lex Normal cs)
      else Payload c Quoted # spec_lex InSingle cs)"
| "spec_lex InDouble [] = []"
| "spec_lex InDouble (c # cs) =
     (if c = BACKSLASH then
        (case cs of
           [] \<Rightarrow> [Payload BACKSLASH Quoted]
         | e # cs' \<Rightarrow>
             if e = DQUOTE then Payload DQUOTE Escaped # spec_lex InDouble cs'
             else if e = BACKSLASH then Payload BACKSLASH Escaped # spec_lex InDouble cs'
             else Payload BACKSLASH Quoted # Payload e Quoted # spec_lex InDouble cs')
      else if c = DQUOTE then
        (if cs \<noteq> [] \<and> hd cs = DQUOTE then spec_lex InDouble (tl cs) else spec_lex Normal cs)
      else Payload c Quoted # spec_lex InDouble cs)"
  by pat_completeness auto
termination
  by (relation "measure (\<lambda>(m, s). length s)") (auto simp: less_Suc_eq_le length_dropWhile_le)

declare spec_lex.simps [simp del]

text \<open>
  The tokens of an item list: the buffer \<open>T\<close> of the description is \<open>cur\<close>; a separator
  and the end of the input emit it when it is not empty. \<open>spec_tokens_from\<close> keeps the
  characters only, \<open>labelled_from\<close> keeps each character with its label.
\<close>

fun spec_tokens_from :: "string list \<Rightarrow> string \<Rightarrow> item list \<Rightarrow> string list" where
  "spec_tokens_from ts cur [] = (if cur \<noteq> [] then ts @ [cur] else ts)"
| "spec_tokens_from ts cur (Separator # items) =
     spec_tokens_from (if cur \<noteq> [] then ts @ [cur] else ts) [] items"
| "spec_tokens_from ts cur (Payload c k # items) = spec_tokens_from ts (cur @ [c]) items"

fun labelled_from ::
  "(char \<times> kind) list list \<Rightarrow> (char \<times> kind) list \<Rightarrow> item list \<Rightarrow> (char \<times> kind) list list" where
  "labelled_from ts cur [] = (if cur \<noteq> [] then ts @ [cur] else ts)"
| "labelled_from ts cur (Separator # items) =
     labelled_from (if cur \<noteq> [] then ts @ [cur] else ts) [] items"
| "labelled_from ts cur (Payload c k # items) = labelled_from ts (cur @ [(c, k)]) items"

definition labelled_tokens :: "string \<Rightarrow> (char \<times> kind) list list" where
  "labelled_tokens input = labelled_from [] [] (spec_lex Normal input)"

text \<open>The payload characters of an item list, in order, with their labels.\<close>

fun payload :: "item list \<Rightarrow> (char \<times> kind) list" where
  "payload [] = []"
| "payload (Separator # items) = payload items"
| "payload (Payload c k # items) = (c, k) # payload items"

text \<open>
  The characters claim C2 is about: the two quote characters and the two blanks. A
  labelled character is \<open>shielded\<close> when it is none of them or is not bare.
\<close>

definition special :: "char \<Rightarrow> bool" where
  "special c = (c = SQUOTE \<or> c = DQUOTE \<or> c = TAB \<or> c = SPACE)"

definition shielded :: "char \<times> kind \<Rightarrow> bool" where
  "shielded p = (special (fst p) \<longrightarrow> snd p \<noteq> Bare)"

fun item_shielded :: "item \<Rightarrow> bool" where
  "item_shielded Separator = True"
| "item_shielded (Payload c k) = shielded (c, k)"

text \<open>The state of the description that the two flags of the source stand for.\<close>

definition mode_of :: "tokenizer \<Rightarrow> mode" where
  "mode_of s = (if inSingleQuotes s then InSingle else if inDoubleQuotes s then InDouble else Normal)"

subsection \<open>The source loop refines the state machine\<close>

text \<open>
  One iteration of the source loop, started in a state where \<open>rest s\<close> is not empty and
  the two flags are not both set, leaves unchanged the tokens that the description gives
  for what is emitted, what is pending and what is unread; and the two flags are again not
  both set.
\<close>

lemma step_refines_normal:
  assumes "\<not> inSingleQuotes s" and "\<not> inDoubleQuotes s" and "rest s = c # cs"
  shows "spec_tokens_from (tokens (tok_step s)) (currentToken (tok_step s))
           (spec_lex (mode_of (tok_step s)) (rest (tok_step s))) =
         spec_tokens_from (tokens s) (currentToken s) (spec_lex Normal (c # cs)) \<and>
         \<not> (inSingleQuotes (tok_step s) \<and> inDoubleQuotes (tok_step s))"
  using assms
  by (cases cs) (simp_all add: tok_step_def spec_lex.simps mode_of_def quote_section_def)

lemma step_refines_single:
  assumes "inSingleQuotes s" and "\<not> inDoubleQuotes s" and "rest s = c # cs"
  shows "spec_tokens_from (tokens (tok_step s)) (currentToken (tok_step s))
           (spec_lex (mode_of (tok_step s)) (rest (tok_step s))) =
         spec_tokens_from (tokens s) (currentToken s) (spec_lex InSingle (c # cs)) \<and>
         \<not> (inSingleQuotes (tok_step s) \<and> inDoubleQuotes (tok_step s))"
  using assms
  by (cases cs) (simp_all add: tok_step_def spec_lex.simps mode_of_def quote_section_def)

lemma step_refines_double:
  assumes "\<not> inSingleQuotes s" and "inDoubleQuotes s" and "rest s = c # cs"
  shows "spec_tokens_from (tokens (tok_step s)) (currentToken (tok_step s))
           (spec_lex (mode_of (tok_step s)) (rest (tok_step s))) =
         spec_tokens_from (tokens s) (currentToken s) (spec_lex InDouble (c # cs)) \<and>
         \<not> (inSingleQuotes (tok_step s) \<and> inDoubleQuotes (tok_step s))"
  using assms
  by (cases cs) (simp_all add: tok_step_def spec_lex.simps mode_of_def quote_section_def)

lemma step_refines:
  assumes "\<not> (inSingleQuotes s \<and> inDoubleQuotes s)" and "rest s \<noteq> []"
  shows "spec_tokens_from (tokens (tok_step s)) (currentToken (tok_step s))
           (spec_lex (mode_of (tok_step s)) (rest (tok_step s))) =
         spec_tokens_from (tokens s) (currentToken s) (spec_lex (mode_of s) (rest s)) \<and>
         \<not> (inSingleQuotes (tok_step s) \<and> inDoubleQuotes (tok_step s))"
proof -
  from assms(2) obtain c cs where r: "rest s = c # cs" by (cases "rest s") auto
  consider (n) "\<not> inSingleQuotes s" "\<not> inDoubleQuotes s"
    | (sq) "inSingleQuotes s" "\<not> inDoubleQuotes s"
    | (dq) "\<not> inSingleQuotes s" "inDoubleQuotes s"
    using assms(1) by blast
  then show ?thesis
  proof cases
    case n
    from step_refines_normal [OF n r] n r show ?thesis by (simp add: mode_of_def)
  next
    case sq
    from step_refines_single [OF sq r] sq r show ?thesis by (simp add: mode_of_def)
  next
    case dq
    from step_refines_double [OF dq r] dq r show ?thesis by (simp add: mode_of_def)
  qed
qed

lemma loop_refines:
  "\<not> (inSingleQuotes s \<and> inDoubleQuotes s) \<Longrightarrow>
   (if currentToken (tok_loop s) \<noteq> [] then tokens (tok_loop s) @ [currentToken (tok_loop s)]
    else tokens (tok_loop s)) =
   spec_tokens_from (tokens s) (currentToken s) (spec_lex (mode_of s) (rest s))"
proof (induction s rule: tok_loop.induct)
  case (1 s)
  show ?case
  proof (cases "rest s = []")
    case True
    then show ?thesis by (cases "mode_of s") (simp_all add: tok_loop_done spec_lex.simps)
  next
    case False
    note st = step_refines [OF "1.prems" False]
    from "1.IH" [OF False] st have
      "(if currentToken (tok_loop (tok_step s)) \<noteq> []
        then tokens (tok_loop (tok_step s)) @ [currentToken (tok_loop (tok_step s))]
        else tokens (tok_loop (tok_step s))) =
       spec_tokens_from (tokens s) (currentToken s) (spec_lex (mode_of s) (rest s))"
      by simp
    then show ?thesis unfolding tok_loop_unroll [OF False] .
  qed
qed

lemma parseCommandLine_spec_tokens:
  "parseCommandLine input = spec_tokens_from [] [] (spec_lex Normal input)"
  using loop_refines [of "\<lparr>rest = input, tokens = [], currentToken = [],
                        inSingleQuotes = False, inDoubleQuotes = False\<rparr>"]
  by (simp add: parseCommandLine_def Let_def mode_of_def)

lemma labelled_from_characters:
  "map (map fst) (labelled_from ts cur items) =
   spec_tokens_from (map (map fst) ts) (map fst cur) items"
  by (induction ts cur items rule: labelled_from.induct) simp_all

lemma labelled_from_payload:
  "concat (labelled_from ts cur items) = concat ts @ cur @ payload items"
  by (induction ts cur items rule: labelled_from.induct) simp_all

lemma labelled_from_nonempty:
  "[] \<notin> set ts \<Longrightarrow> [] \<notin> set (labelled_from ts cur items)"
  by (induction ts cur items rule: labelled_from.induct) simp_all

lemma spec_lex_shielded: "list_all item_shielded (spec_lex m input)"
  by (induction m input rule: spec_lex.induct)
    (auto simp: spec_lex.simps shielded_def special_def is_blank_def split: list.splits)

lemma labelled_from_shielded:
  "list_all item_shielded items \<Longrightarrow> list_all (list_all shielded) ts \<Longrightarrow>
   list_all shielded cur \<Longrightarrow> list_all (list_all shielded) (labelled_from ts cur items)"
  by (induction ts cur items rule: labelled_from.induct) simp_all

subsection \<open>What a token can contain\<close>

text \<open>
  The line \<open>echo 'a<TAB>b'\<close>: the tab stands between single quotes, where section 5 of
  the loop body copies every character to the current token.
\<close>

definition quoted_tab_line :: string where
  "quoted_tab_line = ''echo '' @ [SQUOTE, CHR ''a'', TAB, CHR ''b'', SQUOTE]"

text \<open>The line \<open>echo "it's"\<close>: a single quote between double quotes.\<close>

definition quoted_quote_line :: string where
  "quoted_quote_line = ''echo '' @ [DQUOTE, CHR ''i'', CHR ''t'', SQUOTE, CHR ''s'', DQUOTE]"

text \<open>
  The line \<open>echo 'a'<TAB>b c "it's" d\ e 'f<TAB>g'\<close>: a quoted run that is closed before
  a tab, a single quote between double quotes, an escaped space and a quoted tab.
\<close>

definition quoting_line :: string where
  "quoting_line =
     ''echo '' @ [SQUOTE, CHR ''a'', SQUOTE, TAB] @ ''b c '' @
     [DQUOTE, CHR ''i'', CHR ''t'', SQUOTE, CHR ''s'', DQUOTE] @ '' d'' @ [BACKSLASH] @ '' e '' @
     [SQUOTE, CHR ''f'', TAB, CHR ''g'', SQUOTE]"

text \<open>
  Claim C2 as stated ("for every input line and every index, the token contains no
  unescaped quote character and no tab") fails: the second token of \<open>echo 'a<TAB>b'\<close>
  is \<open>a<TAB>b\<close>.
\<close>

theorem parseCommandLine_token_with_tab:
  "parseCommandLine quoted_tab_line = [''echo'', [CHR ''a'', TAB, CHR ''b'']] \<and>
   TAB \<in> set (parseCommandLine quoted_tab_line ! 1)"
  by (simp add: quoted_tab_line_def parseCommandLine_def tok_loop.simps tok_step_def
      is_blank_def quote_section_def)

text \<open>
  The quote half of the claim fails the same way: the quote of the other kind is payload
  inside a quoted run, without any backslash in the line.
\<close>

lemma parseCommandLine_token_with_quote:
  "parseCommandLine quoted_quote_line = [''echo'', [CHR ''i'', CHR ''t'', SQUOTE, CHR ''s'']]"
  by (simp add: quoted_quote_line_def parseCommandLine_def tok_loop.simps tok_step_def
      is_blank_def quote_section_def)

text \<open>
  Claim C2, amended: for every input line, the tokens produced by the tokenizer are the
  tokens that the state machine of section 4.A gives for the line: no token is empty, the
  tokens hold, in the order of the line, every character that the state machine appends
  (so every character that stands between quotes or after a consumed backslash is copied
  into its token), and a quote character, a tab or a space is in a token only where it
  stood between quotes or directly after a backslash that was consumed: one that is read
  in state Normal without a backslash before it is never in a token.
\<close>

theorem parseCommandLine_tokens_shielded:
  "parseCommandLine input = map (map fst) (labelled_tokens input) \<and>
   [] \<notin> set (parseCommandLine input) \<and>
   concat (parseCommandLine input) = map fst (payload (spec_lex Normal input)) \<and>
   list_all (list_all shielded) (labelled_tokens input)"
proof -
  have t: "parseCommandLine input = map (map fst) (labelled_tokens input)"
    by (simp add: parseCommandLine_spec_tokens labelled_tokens_def labelled_from_characters)
  have "[] \<notin> set (labelled_tokens input)"
    unfolding labelled_tokens_def by (rule labelled_from_nonempty) simp
  then have n: "[] \<notin> set (parseCommandLine input)"
    unfolding t by auto
  have "concat (labelled_tokens input) = payload (spec_lex Normal input)"
    by (simp add: labelled_tokens_def labelled_from_payload)
  then have c: "concat (parseCommandLine input) = map fst (payload (spec_lex Normal input))"
    unfolding t by (simp add: map_concat [symmetric])
  have s: "list_all (list_all shielded) (labelled_tokens input)"
    unfolding labelled_tokens_def
    by (rule labelled_from_shielded) (simp_all add: spec_lex_shielded)
  from t n c s show ?thesis by blast
qed

theorem parseCommandLine_tokens_shielded_witness:
  "labelled_tokens quoting_line =
     [[(CHR ''e'', Bare), (CHR ''c'', Bare), (CHR ''h'', Bare), (CHR ''o'', Bare)],
      [(CHR ''a'', Quoted)],
      [(CHR ''b'', Bare)],
      [(CHR ''c'', Bare)],
      [(CHR ''i'', Quoted), (CHR ''t'', Quoted), (SQUOTE, Quoted), (CHR ''s'', Quoted)],
      [(CHR ''d'', Bare), (SPACE, Escaped), (CHR ''e'', Bare)],
      [(CHR ''f'', Quoted), (TAB, Quoted), (CHR ''g'', Quoted)]] \<and>
   parseCommandLine quoting_line =
     [''echo'', ''a'', ''b'', ''c'', [CHR ''i'', CHR ''t'', SQUOTE, CHR ''s''], ''d e'',
      [CHR ''f'', TAB, CHR ''g'']] \<and>
   map fst (payload (spec_lex Normal quoting_line)) =
     ''echoabcit'' @ [SQUOTE] @ ''sd ef'' @ [TAB] @ ''g'' \<and>
   special SQUOTE \<and> special SPACE \<and> special TAB \<and>
   shielded (SQUOTE, Quoted) \<and> shielded (SPACE, Escaped) \<and> shielded (TAB, Quoted) \<and>
   \<not> shielded (TAB, Bare)"
proof -
  have l: "labelled_tokens quoting_line =
     [[(CHR ''e'', Bare), (CHR ''c'', Bare), (CHR ''h'', Bare), (CHR ''o'', Bare)],
      [(CHR ''a'', Quoted)],
      [(CHR ''b'', Bare)],
      [(CHR ''c'', Bare)],
      [(CHR ''i'', Quoted), (CHR ''t'', Quoted), (SQUOTE, Quoted), (CHR ''s'', Quoted)],
      [(CHR ''d'', Bare), (SPACE, Escaped), (CHR ''e'', Bare)],
      [(CHR ''f'', Quoted), (TAB, Quoted), (CHR ''g'', Quoted)]]"
    by (simp add: labelled_tokens_def quoting_line_def spec_lex.simps is_blank_def)
  note t = parseCommandLine_tokens_shielded [of quoting_line]
  from t have p: "parseCommandLine quoting_line =
     [''echo'', ''a'', ''b'', ''c'', [CHR ''i'', CHR ''t'', SQUOTE, CHR ''s''], ''d e'',
      [CHR ''f'', TAB, CHR ''g'']]"
    unfolding l by simp
  from t have c0: "concat (parseCommandLine quoting_line) =
                   map fst (payload (spec_lex Normal quoting_line))"
    by blast
  have c: "map fst (payload (spec_lex Normal quoting_line)) =
     ''echoabcit'' @ [SQUOTE] @ ''sd ef'' @ [TAB] @ ''g''"
    unfolding c0 [symmetric] p by simp
  from l p c show ?thesis by (simp add: special_def shielded_def)
qed

section \<open>The process: standard streams, working directory, environment, files\<close>

text \<open>
  The state of the shell process that the modelled functions read and write. \<open>stdout\<close>
  and \<open>stderr\<close> are the bytes written so far to the two standard streams; \<open>files\<close> maps
  a path to the content of the file there.
\<close>

record world =
  stdout :: string
  stderr :: string
  cwd :: string
  env_HOME :: "string option"
  env_PATH :: "string option"
  files :: "string \<Rightarrow> string option"

text \<open>\<open>console.log\<close> writes its argument and a newline to standard output.\<close>

definition console_log :: "string \<Rightarrow> world \<Rightarrow> world" where
  "console_log msg w = w\<lparr>stdout := stdout w @ msg @ [NEWLINE]\<rparr>"

text \<open>\<open>console.error\<close> writes its argument and a newline to standard error.\<close>

definition console_error :: "string \<Rightarrow> world \<Rightarrow> world" where
  "console_error msg w = w\<lparr>stderr := stderr w @ msg @ [NEWLINE]\<rparr>"

definition process_stdout_write :: "string \<Rightarrow> world \<Rightarrow> world" where
  "process_stdout_write output w = w\<lparr>stdout := stdout w @ output\<rparr>"

text \<open>A process that has written nothing yet, for the closed examples.\<close>

definition fresh_world :: world where
  "fresh_world = \<lparr>stdout = [], stderr = [], cwd = ''/home/user'', env_HOME = Some ''/home/user'',
                   env_PATH = Some ''/usr/bin:/bin'', files = (\<lambda>p. None)\<rparr>"

section \<open>Pipeline splitter: \<open>parsePipeline\<close> (pipelineParser.js)\<close>

definition syntax_error_message :: string where
  "syntax_error_message = ''syntax error near unexpected token '' @ [SQUOTE] @ ''|'' @ [SQUOTE]"

text \<open>
  The \<open>for (const token of toks)\<close> loop with its accumulators \<open>commands\<close> and
  \<open>currentCommand\<close>. \<open>None\<close> is the early \<open>return []\<close> inside the loop, taken at a pipe
  token while \<open>currentCommand\<close> is empty.
\<close>

fun pipeline_loop ::
  "string list \<Rightarrow> string list list \<Rightarrow> string list \<Rightarrow> (string list list \<times> string list) option"
where
  "pipeline_loop [] commands currentCommand = Some (commands, currentCommand)"
| "pipeline_loop (token # ts) commands currentCommand =
     (if token = ''|'' then
        (if currentCommand = [] then None
         else pipeline_loop ts (commands @ [currentCommand]) [])
      else pipeline_loop ts commands (currentCommand @ [token]))"

definition parsePipeline :: "string list \<Rightarrow> world \<Rightarrow> string list list \<times> world" where
  "parsePipeline toks w =
     (case pipeline_loop toks [] [] of
        None \<Rightarrow> ([], console_log syntax_error_message w)
      | Some (commands, currentCommand) \<Rightarrow>
          if currentCommand = [] \<and> commands \<noteq> [] then ([], console_log syntax_error_message w)
          else if currentCommand \<noteq> [] then (commands @ [currentCommand], w)
          else (commands, w))"

text \<open>
  The pipeline branch of the line handler (index.js): an empty plan reprompts, any other
  plan is handed to \<open>executePipeline\<close>.
\<close>

datatype routed = Reprompt | RunPipeline "string list list"

definition route_pipeline_line :: "string list \<Rightarrow> world \<Rightarrow> routed \<times> world" where
  "route_pipeline_line toks w =
     (case parsePipeline toks w of
        (commands, w') \<Rightarrow> if commands = [] then (Reprompt, w') else (RunPipeline commands, w'))"

lemma pipeline_loop_no_pipe:
  "''|'' \<notin> set ts \<Longrightarrow> pipeline_loop ts commands cur = Some (commands, cur @ ts)"
  by (induction ts arbitrary: cur) auto

text \<open>
  Claim C3 as stated ("for every token list without a pipe token, exactly one stage, equal
  to the list") fails at the empty token list: the splitter returns the empty plan, no
  stage at all.
\<close>

theorem parsePipeline_empty_tokens:
  "parsePipeline [] fresh_world = ([], fresh_world) \<and>
   fst (parsePipeline [] fresh_world) \<noteq> [[]]"
  by (simp add: parsePipeline_def)

text \<open>
  Claim C3, amended: for every non-empty token list without a pipe token, the splitter
  prints nothing and returns exactly one stage, equal to the token list.
\<close>

theorem parsePipeline_single_stage:
  assumes "toks \<noteq> []" and "''|'' \<notin> set toks"
  shows "parsePipeline toks w = ([toks], w)"
  using assms by (simp add: parsePipeline_def pipeline_loop_no_pipe)

theorem parsePipeline_single_stage_witness:
  "[''echo'', ''hello''] \<noteq> [] \<and> ''|'' \<notin> set [''echo'', ''hello''] \<and>
   parsePipeline [''echo'', ''hello''] fresh_world = ([[''echo'', ''hello'']], fresh_world)"
  using parsePipeline_single_stage [of "[''echo'', ''hello'']" fresh_world] by simp

subsection \<open>Empty stages\<close>

text \<open>Two pipe toks next to each other somewhere in the list.\<close>

fun doubled_pipe :: "string list \<Rightarrow> bool" where
  "doubled_pipe (a # b # ts) = ((a = ''|'' \<and> b = ''|'') \<or> doubled_pipe (b # ts))"
| "doubled_pipe _ = False"

lemma pipeline_loop_doubled:
  "doubled_pipe ts \<Longrightarrow> pipeline_loop ts commands cur = None"
proof (induction ts arbitrary: commands cur rule: doubled_pipe.induct)
  case (1 a b ts)
  show ?case
  proof (cases "a = ''|'' \<and> b = ''|''")
    case True
    then show ?thesis by simp
  next
    case False
    with 1 have "\<And>commands cur. pipeline_loop (b # ts) commands cur = None" by simp
    then show ?thesis by (simp del: pipeline_loop.simps(2) add: pipeline_loop.simps(2) [of a])
  qed
qed simp_all

lemma pipeline_loop_trailing:
  "ts \<noteq> [] \<Longrightarrow> last ts = ''|'' \<Longrightarrow>
   pipeline_loop ts commands cur = None \<or>
   (\<exists>commands'. commands' \<noteq> [] \<and> pipeline_loop ts commands cur = Some (commands', []))"
proof (induction ts arbitrary: commands cur)
  case Nil
  then show ?case by simp
next
  case (Cons t ts)
  show ?case
  proof (cases "ts = []")
    case True
    with Cons.prems show ?thesis by simp
  next
    case False
    with Cons.prems have "last ts = ''|''" by simp
    from Cons.IH [OF False this] show ?thesis by simp
  qed
qed

lemma parsePipeline_of_loop_error:
  assumes "pipeline_loop toks [] [] = None \<or>
    (\<exists>commands'. commands' \<noteq> [] \<and> pipeline_loop toks [] [] = Some (commands', []))"
  shows "parsePipeline toks w = ([], console_log syntax_error_message w)"
  using assms by (auto simp: parsePipeline_def)

text \<open>
  Claim C4: for every token list with a pipe token at the very start, at the very end or
  directly after another pipe token, the splitter prints the one diagnostic line
  \<open>syntax error near unexpected token '|'\<close> on standard output and returns the empty plan;
  the line handler then reprompts and hands nothing to the executor.
\<close>

theorem parsePipeline_empty_stage:
  assumes "toks \<noteq> []"
    and "hd toks = ''|'' \<or> last toks = ''|'' \<or> doubled_pipe toks"
  shows "parsePipeline toks w = ([], console_log syntax_error_message w) \<and>
         route_pipeline_line toks w = (Reprompt, console_log syntax_error_message w) \<and>
         stdout (console_log syntax_error_message w) =
           stdout w @ ''syntax error near unexpected token '' @ [SQUOTE] @ ''|'' @ [SQUOTE, NEWLINE]"
proof -
  have loop: "pipeline_loop toks [] [] = None \<or>
    (\<exists>commands'. commands' \<noteq> [] \<and> pipeline_loop toks [] [] = Some (commands', []))"
    using assms(2)
  proof (elim disjE)
    assume "hd toks = ''|''"
    with assms(1) show ?thesis by (cases toks) simp_all
  next
    assume "last toks = ''|''"
    with assms(1) show ?thesis by (rule pipeline_loop_trailing)
  next
    assume "doubled_pipe toks"
    then show ?thesis by (simp add: pipeline_loop_doubled)
  qed
  have p: "parsePipeline toks w = ([], console_log syntax_error_message w)"
    using loop by (rule parsePipeline_of_loop_error)
  show ?thesis
    by (simp add: p route_pipeline_line_def console_log_def syntax_error_message_def)
qed

theorem parsePipeline_empty_stage_witness:
  "parsePipeline [''|''] fresh_world = ([], console_log syntax_error_message fresh_world) \<and>
   parsePipeline [''|'', ''wc''] fresh_world = ([], console_log syntax_error_message fresh_world) \<and>
   parsePipeline [''ls'', ''|''] fresh_world = ([], console_log syntax_error_message fresh_world) \<and>
   parsePipeline [''ls'', ''|'', ''|'', ''wc''] fresh_world =
     ([], console_log syntax_error_message fresh_world) \<and>
   route_pipeline_line [''ls'', ''|''] fresh_world =
     (Reprompt, console_log syntax_error_message fresh_world)"
  using parsePipeline_empty_stage [of "[''|'']" fresh_world]
    parsePipeline_empty_stage [of "[''|'', ''wc'']" fresh_world]
    parsePipeline_empty_stage [of "[''ls'', ''|'']" fresh_world]
    parsePipeline_empty_stage [of "[''ls'', ''|'', ''|'', ''wc'']" fresh_world]
  by simp

section \<open>Redirection extractor: \<open>parseRedirection\<close> (redirectionParser.js)\<close>

record redirection =
  hasRedirection :: bool
  commandTokens :: "string list"
  redirectFile :: "string option"
  redirectFd :: nat
  isAppend :: bool

text \<open>\<open>k < tokens.length ? tokens[k] : null\<close>\<close>

definition token_or_null :: "string list \<Rightarrow> nat \<Rightarrow> string option" where
  "token_or_null toks k = (if k < length toks then Some (toks ! k) else None)"

text \<open>
  The ten cases of the loop body at index \<open>i < tokens.length\<close>, in the order of the source.
  A case that matches sets \<open>(redirectFile, redirectFd, isAppend)\<close> and breaks; \<open>None\<close> means
  that no case matched and the loop goes on to \<open>i + 1\<close>.
\<close>

definition redirection_case :: "string list \<Rightarrow> nat \<Rightarrow> (string option \<times> nat \<times> bool) option" where
  "redirection_case toks i =
     (let token = toks ! i in
      if token = ''>'' then Some (token_or_null toks (i + 1), 1, False)
      else if token = ''>>'' then Some (token_or_null toks (i + 1), 1, True)
      else if token = ''1>'' then Some (token_or_null toks (i + 1), 1, False)
      else if token = ''1>>'' then Some (token_or_null toks (i + 1), 1, True)
      else if token = ''2>'' then Some (token_or_null toks (i + 1), 2, False)
      else if token = ''2>>'' then Some (token_or_null toks (i + 1), 2, True)
      else if token = ''1'' \<and> i + 1 < length toks \<and> toks ! (i + 1) = ''>'' then
        Some (token_or_null toks (i + 2), 1, False)
      else if token = ''1'' \<and> i + 1 < length toks \<and> toks ! (i + 1) = ''>>'' then
        Some (token_or_null toks (i + 2), 1, True)
      else if token = ''2'' \<and> i + 1 < length toks \<and> toks ! (i + 1) = ''>'' then
        Some (token_or_null toks (i + 2), 2, False)
      else if token = ''2'' \<and> i + 1 < length toks \<and> toks ! (i + 1) = ''>>'' then
        Some (token_or_null toks (i + 2), 2, True)
      else None)"

text \<open>
  The \<open>for (let i = 0; i < tokens.length; i++)\<close> loop from index \<open>i\<close>: the result is
  \<open>redirectIndex\<close> with what the matching case set, or \<open>None\<close> when \<open>redirectIndex\<close> is
  still \<open>-1\<close> after the loop.
\<close>

function redirection_scan ::
  "string list \<Rightarrow> nat \<Rightarrow> (nat \<times> string option \<times> nat \<times> bool) option"
where
  "redirection_scan toks i =
     (if i < length toks then
        (case redirection_case toks i of
           Some found \<Rightarrow> Some (i, found)
         | None \<Rightarrow> redirection_scan toks (i + 1))
      else None)"
  by pat_completeness auto
termination
  by (relation "measure (\<lambda>(toks, i). length toks - i)") auto

declare redirection_scan.simps [simp del]

definition parseRedirection :: "string list \<Rightarrow> redirection" where
  "parseRedirection toks =
     (case redirection_scan toks 0 of
        None \<Rightarrow>
          \<lparr>hasRedirection = False, commandTokens = toks, redirectFile = None,
           redirectFd = 1, isAppend = False\<rparr>
      | Some (redirectIndex, file, fd, appending) \<Rightarrow>
          \<lparr>hasRedirection = True, commandTokens = take redirectIndex toks, redirectFile = file,
           redirectFd = fd, isAppend = appending\<rparr>)"

subsection \<open>The operator positions, as the specification names them\<close>

text \<open>
  The operator forms of the specification: the six one-token operators, and the split
  forms, a token \<open>1\<close> or \<open>2\<close> directly followed by the token \<open>>\<close> or \<open>>>\<close>.
\<close>

definition one_token_operator :: "string \<Rightarrow> bool" where
  "one_token_operator t = (t \<in> set [''>'', ''>>'', ''1>'', ''1>>'', ''2>'', ''2>>''])"

definition split_operator_at :: "string list \<Rightarrow> nat \<Rightarrow> bool" where
  "split_operator_at toks i =
     (toks ! i \<in> set [''1'', ''2''] \<and> Suc i < length toks \<and> toks ! Suc i \<in> set [''>'', ''>>''])"

definition operator_at :: "string list \<Rightarrow> nat \<Rightarrow> bool" where
  "operator_at toks i = (i < length toks \<and> (one_token_operator (toks ! i) \<or> split_operator_at toks i))"

text \<open>The index of the target: one after a one-token operator, two after a split form.\<close>

definition target_index :: "string list \<Rightarrow> nat \<Rightarrow> nat" where
  "target_index toks i = (if one_token_operator (toks ! i) then i + 1 else i + 2)"

text \<open>No operator before position \<open>i\<close>, written as a recursion so that it computes.\<close>

fun no_operator_before :: "string list \<Rightarrow> nat \<Rightarrow> bool" where
  "no_operator_before toks 0 = True"
| "no_operator_before toks (Suc j) = (\<not> operator_at toks j \<and> no_operator_before toks j)"

lemma no_operator_before_iff:
  "no_operator_before toks i = (\<forall>j<i. \<not> operator_at toks j)"
  by (induction i) (auto simp: less_Suc_eq)

lemma redirection_case_None_iff:
  "i < length toks \<Longrightarrow> (redirection_case toks i = None) = (\<not> operator_at toks i)"
  by (auto simp: redirection_case_def operator_at_def one_token_operator_def
      split_operator_at_def Let_def)

lemma redirection_case_target:
  "redirection_case toks i = Some (file, fd, appending) \<Longrightarrow>
   file = token_or_null toks (target_index toks i)"
  by (auto simp: redirection_case_def target_index_def one_token_operator_def Let_def
      split: if_splits)

lemma redirection_scan_skip:
  assumes "j \<le> i" and "\<forall>k. j \<le> k \<and> k < i \<longrightarrow> \<not> operator_at toks k" and "i < length toks"
  shows "redirection_scan toks j = redirection_scan toks i"
  using assms
proof (induction "i - j" arbitrary: j)
  case 0
  then show ?case by simp
next
  case (Suc d)
  then have lt: "j < i" and no: "\<not> operator_at toks j" by auto
  with Suc.prems have "redirection_case toks j = None"
    by (simp add: redirection_case_None_iff)
  with lt Suc.prems have "redirection_scan toks j = redirection_scan toks (Suc j)"
    by (subst redirection_scan.simps) simp
  moreover have "redirection_scan toks (Suc j) = redirection_scan toks i"
    using Suc by (intro Suc.hyps(1)) auto
  ultimately show ?case by simp
qed

lemma redirection_scan_first:
  assumes "operator_at toks i" and "no_operator_before toks i"
  shows "\<exists>file fd appending. redirection_case toks i = Some (file, fd, appending) \<and>
           redirection_scan toks 0 = Some (i, file, fd, appending)"
proof -
  from assms(1) have len: "i < length toks" by (simp add: operator_at_def)
  with assms(1) obtain found where f: "redirection_case toks i = Some found"
    using redirection_case_None_iff [of i toks] by (cases "redirection_case toks i") auto
  have "redirection_scan toks 0 = redirection_scan toks i"
    using assms(2) len by (intro redirection_scan_skip) (auto simp: no_operator_before_iff)
  also have "\<dots> = Some (i, found)"
    using len f by (subst redirection_scan.simps) simp
  finally show ?thesis using f by (cases found) auto
qed

subsection \<open>Tokens after the target\<close>

lemma nth_cut:
  "j \<le> k \<Longrightarrow> k < length a \<Longrightarrow> (take (Suc k) a @ extra) ! j = a ! j"
  by (simp add: nth_append)

lemma operator_at_cut:
  assumes "Suc j \<le> k" and "k < length a"
  shows "operator_at (take (Suc k) a @ extra) j = operator_at a j"
proof -
  from assms have "(take (Suc k) a @ extra) ! j = a ! j" "(take (Suc k) a @ extra) ! Suc j = a ! Suc j"
    by (simp_all add: nth_cut)
  with assms show ?thesis
    by (simp add: operator_at_def split_operator_at_def)
qed

lemma no_operator_before_cut:
  assumes "i \<le> k" and "k < length a"
  shows "no_operator_before (take (Suc k) a @ extra) i = no_operator_before a i"
  using assms by (simp add: no_operator_before_iff operator_at_cut)

lemma target_index_bounds: "i < target_index toks i \<and> target_index toks i \<le> i + 2"
  by (simp add: target_index_def)

lemma redirection_case_cut:
  assumes "operator_at a i" and "target_index a i < length a"
  shows "redirection_case (take (Suc (target_index a i)) a @ extra) i = redirection_case a i \<and>
         operator_at (take (Suc (target_index a i)) a @ extra) i"
proof (cases "one_token_operator (a ! i)")
  case True
  then have k: "target_index a i = i + 1" by (simp add: target_index_def)
  from assms(2) k have n: "(take (i + 2) a @ extra) ! i = a ! i"
      "token_or_null (take (i + 2) a @ extra) (i + 1) = token_or_null a (i + 1)"
    by (simp_all add: nth_append token_or_null_def)
  from True n assms(2) k show ?thesis
    by (auto simp: redirection_case_def operator_at_def one_token_operator_def Let_def)
next
  case False
  then have k: "target_index a i = i + 2" by (simp add: target_index_def)
  from assms(2) k have n: "(take (i + 3) a @ extra) ! i = a ! i"
      "(take (i + 3) a @ extra) ! (i + 1) = a ! (i + 1)"
      "token_or_null (take (i + 3) a @ extra) (i + 2) = token_or_null a (i + 2)"
    by (simp_all add: nth_append token_or_null_def)
  from False assms(1) have sp: "split_operator_at a i" by (simp add: operator_at_def)
  from False n assms k sp show ?thesis
    by (simp add: redirection_case_def operator_at_def one_token_operator_def
        split_operator_at_def Let_def eval_nat_numeral)
qed

text \<open>
  Claim C5: at the first position \<open>i\<close> of the token list that holds a recognised
  operator, \<open>parseRedirection\<close> reports a redirection whose command tokens are the tokens
  strictly before \<open>i\<close>; the target is the token one after a one-token operator and two
  after a split form, and is null when that token is absent; whatever follows the target
  does not change the result.
\<close>

theorem parseRedirection_first_operator:
  assumes "operator_at toks i" and "no_operator_before toks i"
  shows "hasRedirection (parseRedirection toks) \<and>
         commandTokens (parseRedirection toks) = take i toks \<and>
         (target_index toks i < length toks \<longrightarrow>
            redirectFile (parseRedirection toks) = Some (toks ! target_index toks i) \<and>
            parseRedirection (take (Suc (target_index toks i)) toks @ extra) = parseRedirection toks) \<and>
         (length toks \<le> target_index toks i \<longrightarrow> redirectFile (parseRedirection toks) = None)"
proof -
  from redirection_scan_first [OF assms] obtain target fd appending where
    c: "redirection_case toks i = Some (target, fd, appending)" and
    s: "redirection_scan toks 0 = Some (i, target, fd, appending)" by blast
  from redirection_case_target [OF c] have fl: "target = token_or_null toks (target_index toks i)" .
  have r: "parseRedirection toks =
    \<lparr>hasRedirection = True, commandTokens = take i toks, redirectFile = target,
     redirectFd = fd, isAppend = appending\<rparr>"
    by (simp add: parseRedirection_def s)
  have cut: "parseRedirection (take (Suc (target_index toks i)) toks @ extra) = parseRedirection toks"
    if k: "target_index toks i < length toks"
  proof -
    let ?cut = "take (Suc (target_index toks i)) toks @ extra"
    from redirection_case_cut [OF assms(1) k, of extra] c
    have c': "redirection_case ?cut i = Some (target, fd, appending)" and o': "operator_at ?cut i"
      by simp_all
    have le: "i \<le> target_index toks i" using target_index_bounds [of i toks] by simp
    have n': "no_operator_before ?cut i"
      using assms(2) by (simp add: no_operator_before_cut [OF le k])
    from redirection_scan_first [OF o' n'] c'
    have sc: "redirection_scan ?cut 0 = Some (i, target, fd, appending)" by auto
    have tk: "take i ?cut = take i toks" using le k by simp
    have "parseRedirection ?cut =
      \<lparr>hasRedirection = True, commandTokens = take i ?cut, redirectFile = target,
       redirectFd = fd, isAppend = appending\<rparr>"
      unfolding parseRedirection_def sc by simp
    then show ?thesis by (simp only: tk r)
  qed
  show ?thesis
    using cut by (simp add: r fl token_or_null_def)
qed

theorem parseRedirection_first_operator_witness:
  "parseRedirection [''ls'', ''-l'', ''2'', ''>>'', ''err.txt'', ''>'', ''out.txt''] =
     \<lparr>hasRedirection = True, commandTokens = [''ls'', ''-l''], redirectFile = Some ''err.txt'',
      redirectFd = 2, isAppend = True\<rparr> \<and>
   parseRedirection [''ls'', ''-l'', ''2'', ''>>'', ''err.txt''] =
     parseRedirection [''ls'', ''-l'', ''2'', ''>>'', ''err.txt'', ''>'', ''out.txt''] \<and>
   redirectFile (parseRedirection [''echo'', ''hi'', ''>'']) = None \<and>
   commandTokens (parseRedirection [''echo'', ''hi'', ''>'']) = [''echo'', ''hi'']"
proof -
  let ?t = "[''ls'', ''-l'', ''2'', ''>>'', ''err.txt'', ''>'', ''out.txt'']"
  have o: "operator_at ?t 2"
    by (simp add: operator_at_def split_operator_at_def one_token_operator_def)
  have n: "no_operator_before ?t 2"
    by (simp add: eval_nat_numeral operator_at_def split_operator_at_def one_token_operator_def)
  have k: "target_index ?t 2 = 4"
    by (simp add: target_index_def one_token_operator_def)
  have o2: "operator_at [''echo'', ''hi'', ''>''] 2"
    by (simp add: operator_at_def one_token_operator_def)
  have n2: "no_operator_before [''echo'', ''hi'', ''>''] 2"
    by (simp add: eval_nat_numeral operator_at_def split_operator_at_def one_token_operator_def)
  have k2: "target_index [''echo'', ''hi'', ''>''] 2 = 3"
    by (simp add: target_index_def one_token_operator_def)
  have full: "parseRedirection ?t =
     \<lparr>hasRedirection = True, commandTokens = [''ls'', ''-l''], redirectFile = Some ''err.txt'',
      redirectFd = 2, isAppend = True\<rparr>"
    by (simp add: parseRedirection_def redirection_scan.simps redirection_case_def
        token_or_null_def)
  from parseRedirection_first_operator [OF o n, of "[]"]
    parseRedirection_first_operator [OF o2 n2, of "[]"] full
  show ?thesis by (simp add: k k2)
qed

section \<open>The platform: what Node.js and the operating system answer\<close>

text \<open>
  The shell calls into the JavaScript and Node.js library (\<open>parseInt\<close>, \<open>path.join\<close>, \<open>fs\<close>,
  \<open>process.chdir\<close>); that code is not part of the repository. Its answers are a parameter
  of the model:
  \<^item> \<open>parseInt s\<close> is \<open>parseInt(s, 10)\<close>, with \<open>None\<close> for \<open>NaN\<close>;
  \<^item> \<open>path_join\<close> is \<open>path.join\<close> on two segments;
  \<^item> \<open>executable_file p\<close> holds when \<open>p\<close> exists, is a regular file and has an execute bit
    (\<open>fs.existsSync\<close>, \<open>stats.isFile()\<close>, \<open>stats.mode & 0o111\<close>);
  \<^item> \<open>chdir_to cwd target\<close> is the working directory after \<open>process.chdir(target)\<close>, or
    \<open>None\<close> when it throws;
  \<^item> \<open>read_denied p\<close> and \<open>write_denied p\<close> hold when opening \<open>p\<close> for reading or for
    writing throws although nothing is wrong with the call (permissions, a missing
    directory);
  \<^item> \<open>keeps_content p\<close> holds when \<open>p\<close> names a regular file (or no file yet, so that a write
    creates one): what is written there can be read back. It fails for a device such as
    \<open>/dev/null\<close> and for a FIFO, where a write succeeds and leaves nothing to read.
  Files change only by what the shell itself writes.
\<close>

record platform =
  parseInt :: "string \<Rightarrow> int option"
  path_join :: "string \<Rightarrow> string \<Rightarrow> string"
  executable_file :: "string \<Rightarrow> bool"
  chdir_to :: "string \<Rightarrow> string \<Rightarrow> string option"
  read_denied :: "string \<Rightarrow> bool"
  write_denied :: "string \<Rightarrow> bool"
  keeps_content :: "string \<Rightarrow> bool"

text \<open>\<open>fs.readFileSync(path, "utf8")\<close>; \<open>None\<close> is a thrown error.\<close>

definition readFileSync :: "platform \<Rightarrow> world \<Rightarrow> string \<Rightarrow> string option" where
  "readFileSync P w path = (if read_denied P path then None else files w path)"

text \<open>\<open>fs.writeFileSync(path, content, "utf8")\<close>; \<open>None\<close> is a thrown error.\<close>

definition writeFileSync :: "platform \<Rightarrow> string \<Rightarrow> string \<Rightarrow> world \<Rightarrow> world option" where
  "writeFileSync P path content w =
     (if write_denied P path then None
      else if keeps_content P path then Some (w\<lparr>files := (files w)(path \<mapsto> content)\<rparr>)
      else Some w)"

text \<open>\<open>fs.appendFileSync(path, content, "utf8")\<close>: creates the file when it is missing.\<close>

definition appendFileSync :: "platform \<Rightarrow> string \<Rightarrow> string \<Rightarrow> world \<Rightarrow> world option" where
  "appendFileSync P path content w =
     (if write_denied P path then None
      else if keeps_content P path then
        Some (w\<lparr>files := (files w)(path \<mapsto>
                (case files w path of None \<Rightarrow> content | Some old \<Rightarrow> old @ content))\<rparr>)
      else Some w)"

subsection \<open>\<open>parseInt\<close> on the strings of the model\<close>

text \<open>
  \<open>parseInt(s, 10)\<close> as ECMAScript defines it, for the closed examples: leading white
  space is skipped, then an optional sign, then the longest run of decimal digits; \<open>None\<close>
  is \<open>NaN\<close> (no digit there). Of JavaScript's white space and line terminators the code
  units below 256 are TAB, LF, VT, FF, CR, SP and NBSP (U+00A0).
\<close>

definition js_whitespace :: "char \<Rightarrow> bool" where
  "js_whitespace c = (c \<in> set [TAB, NEWLINE, CHR 0x0B, CHR 0x0C, CHR 0x0D, SPACE, CHR 0xA0])"

definition is_digit :: "char \<Rightarrow> bool" where
  "is_digit c = (c \<in> set ''0123456789'')"

definition digit_value :: "char \<Rightarrow> nat" where
  "digit_value c = of_char c - 48"

definition digits_value :: "string \<Rightarrow> nat" where
  "digits_value ds = foldl (\<lambda>acc d. acc * 10 + digit_value d) 0 ds"

definition parseInt10 :: "string \<Rightarrow> int option" where
  "parseInt10 str =
     (let S = dropWhile js_whitespace str;
          negative = (S \<noteq> [] \<and> hd S = CHR ''-'');
          S' = (if S \<noteq> [] \<and> (hd S = CHR ''+'' \<or> hd S = CHR ''-'') then tl S else S);
          Z = takeWhile is_digit S'
      in if Z = [] then None
         else Some ((if negative then - 1 else 1) * int (digits_value Z)))"

text \<open>\<open>s.split(sep)\<close> for a one-character separator: never the empty list.\<close>

fun split_on :: "char \<Rightarrow> string \<Rightarrow> string list" where
  "split_on sep [] = [[]]"
| "split_on sep (c # cs) =
     (if c = sep then [] # split_on sep cs
      else (case split_on sep cs of [] \<Rightarrow> [[c]] | x # xs \<Rightarrow> (c # x) # xs))"

text \<open>\<open>xs.join(sep)\<close>\<close>

fun join :: "string \<Rightarrow> string list \<Rightarrow> string" where
  "join sep [] = []"
| "join sep [x] = x"
| "join sep (x # y # ys) = x @ sep @ join sep (y # ys)"

section \<open>History manager (app/history/historyManager.js)\<close>

text \<open>The two variables of the closure made by \<open>createHistoryManager\<close>.\<close>

record history_manager =
  history :: "string list"
  lastSavedIndex :: nat

definition createHistoryManager :: history_manager where
  "createHistoryManager = \<lparr>history = [], lastSavedIndex = 0\<rparr>"

definition addCommand :: "string \<Rightarrow> history_manager \<Rightarrow> history_manager" where
  "addCommand command hm = hm\<lparr>history := history hm @ [command]\<rparr>"

definition getHistory :: "history_manager \<Rightarrow> string list" where
  "getHistory hm = history hm"

text \<open>
  Each of the three file operations returns \<open>success\<close> first; the \<open>catch\<close> branch leaves the
  manager and the files as they were.
\<close>

definition readFromFile :: "platform \<Rightarrow> string \<Rightarrow> history_manager \<Rightarrow> world \<Rightarrow> bool \<times> history_manager" where
  "readFromFile P filePath hm w =
     (case readFileSync P w filePath of
        None \<Rightarrow> (False, hm)
      | Some content \<Rightarrow>
          (let lines = filter (\<lambda>line. length line > 0) (split_on NEWLINE content)
           in (True, \<lparr>history = lines, lastSavedIndex = length lines\<rparr>)))"

definition writeToFile ::
  "platform \<Rightarrow> string \<Rightarrow> history_manager \<Rightarrow> world \<Rightarrow> bool \<times> history_manager \<times> world" where
  "writeToFile P filePath hm w =
     (let content = join [NEWLINE] (history hm) @ (if length (history hm) > 0 then [NEWLINE] else [])
      in case writeFileSync P filePath content w of
           None \<Rightarrow> (False, hm, w)
         | Some w' \<Rightarrow> (True, hm\<lparr>lastSavedIndex := length (history hm)\<rparr>, w'))"

definition appendToFile ::
  "platform \<Rightarrow> string \<Rightarrow> history_manager \<Rightarrow> world \<Rightarrow> bool \<times> history_manager \<times> world" where
  "appendToFile P filePath hm w =
     (if lastSavedIndex hm \<ge> length (history hm) then (True, hm, w)
      else
        (let newEntries = drop (lastSavedIndex hm) (history hm);
             content = join [NEWLINE] newEntries @ [NEWLINE]
         in case appendFileSync P filePath content w of
              None \<Rightarrow> (False, hm, w)
            | Some w' \<Rightarrow> (True, hm\<lparr>lastSavedIndex := length (history hm)\<rparr>, w')))"

subsection \<open>Writing and reading back\<close>

lemma split_on_line:
  "NEWLINE \<notin> set x \<Longrightarrow> split_on NEWLINE (x @ NEWLINE # r) = x # split_on NEWLINE r"
  by (induction x) auto

text \<open>The content that \<open>writeToFile\<close> writes for the entries \<open>h\<close>.\<close>

definition file_content :: "string list \<Rightarrow> string" where
  "file_content h = join [NEWLINE] h @ (if length h > 0 then [NEWLINE] else [])"

lemma file_content_Cons: "file_content (x # xs) = x @ NEWLINE # file_content xs"
  by (cases xs) (simp_all add: file_content_def)

lemma file_content_lines:
  assumes "\<forall>e \<in> set h. e \<noteq> [] \<and> NEWLINE \<notin> set e"
  shows "filter (\<lambda>line. length line > 0) (split_on NEWLINE (file_content h)) = h"
  using assms
proof (induction h)
  case Nil
  show ?case by (simp add: file_content_def)
next
  case (Cons x xs)
  then have "NEWLINE \<notin> set x" and "x \<noteq> []" by simp_all
  with Cons show ?case by (simp add: file_content_Cons split_on_line)
qed

text \<open>
  A platform on which nothing is denied and every path but \<open>/dev/null\<close> is a regular
  file, and one on which every write is denied.
\<close>

definition open_platform :: platform where
  "open_platform = \<lparr>parseInt = parseInt10, path_join = (\<lambda>a b. a @ ''/'' @ b),
     executable_file = (\<lambda>p. p = ''/bin/cat''),
     chdir_to = (\<lambda>c t. if t = ''/tmp'' then Some t else None),
     read_denied = (\<lambda>p. False), write_denied = (\<lambda>p. False),
     keeps_content = (\<lambda>p. p \<noteq> ''/dev/null'')\<rparr>"

definition read_only_platform :: platform where
  "read_only_platform = open_platform\<lparr>write_denied := (\<lambda>p. True)\<rparr>"

text \<open>A manager that holds one entry with a line break in it, after \<open>addCommand("a\\nb")\<close>.\<close>

definition two_line_entry :: history_manager where
  "two_line_entry = addCommand [CHR ''a'', NEWLINE, CHR ''b''] createHistoryManager"

text \<open>
  Claim C6 as stated ("for every in-memory history and every path, write then read leaves
  the history as it was") fails for an entry that holds a newline: it is written as two
  lines and read back as two entries.
\<close>

theorem write_then_read_splits_entry:
  "history two_line_entry = [[CHR ''a'', NEWLINE, CHR ''b'']] \<and>
   history (snd (readFromFile open_platform ''h.txt''
      (fst (snd (writeToFile open_platform ''h.txt'' two_line_entry fresh_world)))
      (snd (snd (writeToFile open_platform ''h.txt'' two_line_entry fresh_world))))) = [''a'', ''b'']"
  by (simp add: two_line_entry_def addCommand_def createHistoryManager_def writeToFile_def
      readFromFile_def writeFileSync_def readFileSync_def open_platform_def fresh_world_def)

text \<open>
  It fails as well when the write is refused and the file can be read: the history is
  not written, and the read replaces it by the lines the file already had.
\<close>

lemma refused_write_then_read:
  "history (snd (readFromFile read_only_platform ''h.txt''
      (fst (snd (writeToFile read_only_platform ''h.txt'' (addCommand ''ls'' createHistoryManager)
         (fresh_world\<lparr>files := (\<lambda>p. if p = ''h.txt'' then Some (''pwd'' @ [NEWLINE]) else None)\<rparr>))))
      (snd (snd (writeToFile read_only_platform ''h.txt'' (addCommand ''ls'' createHistoryManager)
         (fresh_world\<lparr>files := (\<lambda>p. if p = ''h.txt'' then Some (''pwd'' @ [NEWLINE]) else None)\<rparr>))))))
   = [''pwd'']"
  by (simp add: addCommand_def createHistoryManager_def writeToFile_def
      readFromFile_def writeFileSync_def readFileSync_def open_platform_def
      read_only_platform_def fresh_world_def)

text \<open>
  And it fails at a path that does not keep what is written to it: at \<open>/dev/null\<close> the
  write succeeds, the read succeeds with no content, and the history is empty afterwards.
\<close>

definition device_world :: world where
  "device_world = fresh_world\<lparr>files := (\<lambda>p. if p = ''/dev/null'' then Some [] else None)\<rparr>"

lemma device_write_then_read:
  "fst (writeToFile open_platform ''/dev/null'' (addCommand ''ls'' createHistoryManager) device_world) \<and>
   readFromFile open_platform ''/dev/null''
      (fst (snd (writeToFile open_platform ''/dev/null'' (addCommand ''ls'' createHistoryManager)
         device_world)))
      (snd (snd (writeToFile open_platform ''/dev/null'' (addCommand ''ls'' createHistoryManager)
         device_world)))
   = (True, \<lparr>history = [], lastSavedIndex = 0\<rparr>)"
  by (simp add: addCommand_def createHistoryManager_def writeToFile_def
      readFromFile_def writeFileSync_def readFileSync_def open_platform_def
      device_world_def fresh_world_def)

text \<open>
  Claim C6, amended: for every in-memory history whose entries are non-empty and hold no
  newline (and are strings of the model: code units below 256, which the \<open>utf8\<close> encoding
  writes and reads back unchanged), and every path that names a regular file (one that
  keeps what is written to it) and at which \<open>writeToFile\<close> succeeds, \<open>writeToFile\<close>
  followed by \<open>readFromFile\<close> on that path leaves the in-memory history equal to the
  history before the write.
\<close>

theorem write_then_read:
  assumes "\<forall>e \<in> set (history hm). e \<noteq> [] \<and> NEWLINE \<notin> set e"
    and "keeps_content P filePath"
    and "writeToFile P filePath hm w = (True, hm1, w1)"
    and "readFromFile P filePath hm1 w1 = (ok, hm2)"
  shows "history hm2 = history hm"
proof -
  from assms(2,3) have w1: "files w1 filePath = Some (file_content (history hm))"
    and h1: "history hm1 = history hm"
    by (auto simp: writeToFile_def writeFileSync_def file_content_def Let_def split: if_splits)
  show ?thesis
  proof (cases "read_denied P filePath")
    case True
    with assms(4) h1 show ?thesis by (simp add: readFromFile_def readFileSync_def)
  next
    case False
    with assms(4) w1 have "history hm2 =
        filter (\<lambda>line. length line > 0) (split_on NEWLINE (file_content (history hm)))"
      by (auto simp: readFromFile_def readFileSync_def Let_def)
    with file_content_lines [OF assms(1)] show ?thesis by simp
  qed
qed

definition two_entries :: history_manager where
  "two_entries = addCommand ''echo hi'' (addCommand ''ls -l'' createHistoryManager)"

theorem write_then_read_witness:
  "history two_entries = [''ls -l'', ''echo hi''] \<and>
   fst (writeToFile open_platform ''h.txt'' two_entries fresh_world) \<and>
   history (snd (readFromFile open_platform ''h.txt''
      (fst (snd (writeToFile open_platform ''h.txt'' two_entries fresh_world)))
      (snd (snd (writeToFile open_platform ''h.txt'' two_entries fresh_world))))) = [''ls -l'', ''echo hi'']"
proof -
  have e: "\<forall>e \<in> set (history two_entries). e \<noteq> [] \<and> NEWLINE \<notin> set e"
    by (simp add: two_entries_def addCommand_def createHistoryManager_def)
  obtain hm1 w1 where wr: "writeToFile open_platform ''h.txt'' two_entries fresh_world = (True, hm1, w1)"
    by (simp add: writeToFile_def writeFileSync_def open_platform_def)
  obtain ok hm2 where rd: "readFromFile open_platform ''h.txt'' hm1 w1 = (ok, hm2)"
    by (cases "readFromFile open_platform ''h.txt'' hm1 w1") auto
  have k: "keeps_content open_platform ''h.txt''" by (simp add: open_platform_def)
  from write_then_read [OF e k wr rd] have "history hm2 = history two_entries" .
  with e wr rd show ?thesis
    by (simp add: two_entries_def addCommand_def createHistoryManager_def)
qed

subsection \<open>Appending twice\<close>

text \<open>
  Claim C7: of two consecutive \<open>appendToFile\<close> calls on the same path, with no
  \<open>addCommand\<close> between them, the second changes neither the files nor the manager: it
  appends zero bytes. When the first call succeeds, the last-saved marker has reached
  the history length.
\<close>

theorem appendToFile_twice:
  assumes "appendToFile P filePath hm w = (ok1, hm1, w1)"
    and "appendToFile P filePath hm1 w1 = (ok2, hm2, w2)"
  shows "w2 = w1 \<and> files w2 filePath = files w1 filePath \<and> hm2 = hm1 \<and>
         (ok1 \<longrightarrow> length (history hm1) \<le> lastSavedIndex hm1 \<and> ok2)"
proof (cases "lastSavedIndex hm \<ge> length (history hm)")
  case True
  with assms(1) have "hm1 = hm" "w1 = w" by (simp_all add: appendToFile_def)
  with True assms show ?thesis by (simp add: appendToFile_def)
next
  case False
  show ?thesis
  proof (cases "write_denied P filePath")
    case True
    with False assms(1) have "hm1 = hm" "w1 = w" "\<not> ok1"
      by (simp_all add: appendToFile_def appendFileSync_def Let_def)
    with True False assms(2) show ?thesis
      by (simp add: appendToFile_def appendFileSync_def Let_def)
  next
    case denied: False
    with False assms(1) have "lastSavedIndex hm1 = length (history hm1)"
      by (auto simp: appendToFile_def appendFileSync_def Let_def split: if_splits)
    with assms(2) show ?thesis by (simp add: appendToFile_def)
  qed
qed

theorem appendToFile_twice_witness:
  "files (snd (snd (appendToFile open_platform ''h.txt'' two_entries fresh_world))) ''h.txt'' =
     Some (''ls -l'' @ [NEWLINE] @ ''echo hi'' @ [NEWLINE]) \<and>
   files (snd (snd (appendToFile open_platform ''h.txt''
       (fst (snd (appendToFile open_platform ''h.txt'' two_entries fresh_world)))
       (snd (snd (appendToFile open_platform ''h.txt'' two_entries fresh_world)))))) ''h.txt'' =
     Some (''ls -l'' @ [NEWLINE] @ ''echo hi'' @ [NEWLINE])"
proof -
  obtain ok1 hm1 w1 where a1: "appendToFile open_platform ''h.txt'' two_entries fresh_world = (ok1, hm1, w1)"
    by (cases "appendToFile open_platform ''h.txt'' two_entries fresh_world") auto
  obtain ok2 hm2 w2 where a2: "appendToFile open_platform ''h.txt'' hm1 w1 = (ok2, hm2, w2)"
    by (cases "appendToFile open_platform ''h.txt'' hm1 w1") auto
  have f1: "files w1 ''h.txt'' = Some (''ls -l'' @ [NEWLINE] @ ''echo hi'' @ [NEWLINE])"
    using a1 by (auto simp: appendToFile_def appendFileSync_def two_entries_def addCommand_def
        createHistoryManager_def open_platform_def fresh_world_def)
  from appendToFile_twice [OF a1 a2] f1 a1 a2 show ?thesis by simp
qed

text \<open>
  After a successful \<open>appendToFile\<close> the next one is a no-op on any platform, also one
  that would refuse or accept the write differently: it returns before touching the file.
\<close>

lemma appendToFile_after_success:
  assumes "appendToFile P filePath hm w = (True, hm1, w1)"
  shows "appendToFile P' filePath' hm1 w1 = (True, hm1, w1)"
proof -
  from assms have "lastSavedIndex hm1 \<ge> length (history hm1)"
    by (auto simp: appendToFile_def appendFileSync_def Let_def split: if_splits)
  then show ?thesis by (simp add: appendToFile_def)
qed

section \<open>Internal commands (app/command/builtins.js)\<close>

text \<open>
  A writable stream handed to an internal command (the \<open>PassThrough\<close> of a pipeline
  stage): the bytes written to it and whether \<open>end()\<close> was called. A write after \<open>end()\<close>
  adds nothing.
\<close>

record out_stream =
  written :: string
  ended :: bool

definition new_PassThrough :: out_stream where
  "new_PassThrough = \<lparr>written = [], ended = False\<rparr>"

definition stream_write :: "string \<Rightarrow> out_stream \<Rightarrow> out_stream" where
  "stream_write output st = (if ended st then st else st\<lparr>written := written st @ output\<rparr>)"

definition stream_end :: "out_stream \<Rightarrow> out_stream" where
  "stream_end st = st\<lparr>ended := True\<rparr>"

definition BUILTINS :: "string list" where
  "BUILTINS = [''echo'', ''exit'', ''type'', ''pwd'', ''cd'', ''history'']"

definition writeOutput :: "string \<Rightarrow> out_stream option \<Rightarrow> world \<Rightarrow> out_stream option \<times> world" where
  "writeOutput output outputStream w =
     (case outputStream of
        Some st \<Rightarrow> (Some (stream_end (stream_write output st)), w)
      | None \<Rightarrow> (None, process_stdout_write output w))"

definition isBuiltin :: "string \<Rightarrow> bool" where
  "isBuiltin command = (command \<in> set BUILTINS)"

subsection \<open>\<open>findCommandInPath\<close> (utils/pathUtils.js)\<close>

text \<open>\<open>(process.env.PATH || "").split(":").filter((dir) => dir.length > 0)\<close>\<close>

definition pathDirs :: "world \<Rightarrow> string list" where
  "pathDirs w =
     filter (\<lambda>dir. length dir > 0)
       (split_on (CHR '':'') (case env_PATH w of None \<Rightarrow> [] | Some path \<Rightarrow> path))"

fun search_dirs :: "platform \<Rightarrow> string list \<Rightarrow> string \<Rightarrow> string option" where
  "search_dirs P [] commandName = None"
| "search_dirs P (dir # dirs) commandName =
     (let fullPath = path_join P dir commandName
      in if executable_file P fullPath then Some fullPath
         else search_dirs P dirs commandName)"

definition findCommandInPath :: "platform \<Rightarrow> world \<Rightarrow> string \<Rightarrow> string option" where
  "findCommandInPath P w commandName = search_dirs P (pathDirs w) commandName"

subsection \<open>\<open>echo\<close>, \<open>pwd\<close>, \<open>cd\<close>, \<open>type\<close>\<close>

definition executeEcho :: "string list \<Rightarrow> out_stream option \<Rightarrow> world \<Rightarrow> out_stream option \<times> world" where
  "executeEcho args outputStream w = writeOutput (join '' '' args @ [NEWLINE]) outputStream w"

definition executePwd :: "string list \<Rightarrow> out_stream option \<Rightarrow> world \<Rightarrow> out_stream option \<times> world" where
  "executePwd args outputStream w = writeOutput (cwd w @ [NEWLINE]) outputStream w"

text \<open>JavaScript truthiness of a value that is a string or \<open>undefined\<close>.\<close>

definition truthy :: "string option \<Rightarrow> bool" where
  "truthy v = (case v of None \<Rightarrow> False | Some str \<Rightarrow> str \<noteq> [])"

definition startsWith :: "string \<Rightarrow> string \<Rightarrow> bool" where
  "startsWith str prefix = (take (length prefix) str = prefix)"

text \<open>
  The tilde block of \<open>executeCd\<close>, entered when \<open>targetDir\<close> is truthy and starts with
  \<open>~\<close>: \<open>None\<close> is the early return after \<open>cd: HOME not set\<close>, otherwise the new \<open>targetDir\<close>.
\<close>

definition expand_tilde :: "platform \<Rightarrow> world \<Rightarrow> string \<Rightarrow> string option" where
  "expand_tilde P w targetDir =
     (let home = env_HOME w in
      if \<not> truthy home then None
      else if targetDir = ''~'' then home
      else if startsWith targetDir ''~/'' then Some (path_join P (the home) (drop 2 targetDir))
      else Some targetDir)"

definition executeCd ::
  "platform \<Rightarrow> string list \<Rightarrow> out_stream option \<Rightarrow> world \<Rightarrow> out_stream option \<times> world" where
  "executeCd P args outputStream w =
     (let targetDir0 = (if length args > 0 then Some (hd args) else env_HOME w);
          tilde = truthy targetDir0 \<and> startsWith (the targetDir0) ''~''
      in if tilde \<and> expand_tilde P w (the targetDir0) = None then
           writeOutput (''cd: HOME not set'' @ [NEWLINE]) outputStream w
         else
           (let targetDir = (if tilde then expand_tilde P w (the targetDir0) else targetDir0)
            in if \<not> truthy targetDir then
                 writeOutput (''cd: HOME not set'' @ [NEWLINE]) outputStream w
               else
                 (case (case chdir_to P (cwd w) (the targetDir) of
                          Some dir \<Rightarrow> (outputStream, w\<lparr>cwd := dir\<rparr>)
                        | None \<Rightarrow>
                            writeOutput (''cd: '' @ the targetDir @ '': No such file or directory''
                                         @ [NEWLINE]) outputStream w)
                  of (os, w') \<Rightarrow> (map_option stream_end os, w'))))"

definition executeType ::
  "platform \<Rightarrow> string list \<Rightarrow> out_stream option \<Rightarrow> world \<Rightarrow> out_stream option \<times> world" where
  "executeType P args outputStream w =
     (if length args = 0 then writeOutput (''type: missing argument'' @ [NEWLINE]) outputStream w
      else
        (let commandToCheck = hd args;
             output =
               (if commandToCheck \<in> set BUILTINS then commandToCheck @ '' is a shell builtin'' @ [NEWLINE]
                else (case findCommandInPath P w commandToCheck of
                        Some fullPath \<Rightarrow> commandToCheck @ '' is '' @ fullPath @ [NEWLINE]
                      | None \<Rightarrow> commandToCheck @ '': not found'' @ [NEWLINE]))
         in writeOutput output outputStream w))"

subsection \<open>\<open>history\<close>\<close>

text \<open>The decimal digits of a number, as a template literal prints a small integer.\<close>

definition digit_char :: "nat \<Rightarrow> char" where
  "digit_char d = ''0123456789'' ! d"

function show_nat :: "nat \<Rightarrow> string" where
  "show_nat n = (if n < 10 then [digit_char n] else show_nat (n div 10) @ [digit_char (n mod 10)])"
  by pat_completeness auto
termination
  by (relation "measure (\<lambda>n. n)") auto

declare show_nat.simps [simp del]

text \<open>One line of the listing: four spaces, the 1-based index, two spaces, the entry.\<close>

definition history_line :: "string list \<Rightarrow> nat \<Rightarrow> string" where
  "history_line h i = ''    '' @ show_nat (i + 1) @ ''  '' @ h ! i @ [NEWLINE]"

text \<open>The \<open>for (let i = startIndex; i < history.length; i++)\<close> loop building \<open>output\<close>.\<close>

function history_loop :: "string list \<Rightarrow> nat \<Rightarrow> string \<Rightarrow> string" where
  "history_loop h i output =
     (if i < length h then history_loop h (i + 1) (output @ history_line h i) else output)"
  by pat_completeness auto
termination
  by (relation "measure (\<lambda>(h, i, output). length h - i)") auto

declare history_loop.simps [simp del]

text \<open>
  The three file modes share their shape: a missing path argument, a failed file
  operation (each with its diagnostic), or success, which only ends the output stream.
\<close>

definition history_file_mode ::
  "string \<Rightarrow> string \<Rightarrow> string list \<Rightarrow> out_stream option \<Rightarrow> bool \<times> history_manager \<times> world
   \<Rightarrow> history_manager \<Rightarrow> world \<Rightarrow> out_stream option \<times> history_manager \<times> world" where
  "history_file_mode flag failure args outputStream result hm w =
     (if length args < 2 then
        (case writeOutput (''history: '' @ flag @ '': option requires an argument'' @ [NEWLINE])
                outputStream w of (os, w') \<Rightarrow> (os, hm, w'))
      else
        (case result of
           (success, hm', w') \<Rightarrow>
             if \<not> success then
               (case writeOutput (''history: '' @ args ! 1 @ '': '' @ failure @ [NEWLINE])
                       outputStream w' of (os, w'') \<Rightarrow> (os, hm', w''))
             else (map_option stream_end outputStream, hm', w')))"

definition executeHistory ::
  "platform \<Rightarrow> string list \<Rightarrow> out_stream option \<Rightarrow> history_manager \<Rightarrow> world
   \<Rightarrow> out_stream option \<times> history_manager \<times> world" where
  "executeHistory P args outputStream hm w =
     (let flag = (if args = [] then None else Some (hd args)) in
      if flag = Some ''-r'' then
        history_file_mode ''-r'' ''No such file or directory'' args outputStream
          (case readFromFile P (args ! 1) hm w of (success, hm') \<Rightarrow> (success, hm', w)) hm w
      else if flag = Some ''-w'' then
        history_file_mode ''-w'' ''cannot write to file'' args outputStream
          (writeToFile P (args ! 1) hm w) hm w
      else if flag = Some ''-a'' then
        history_file_mode ''-a'' ''cannot write to file'' args outputStream
          (appendToFile P (args ! 1) hm w) hm w
      else
        (let h = getHistory hm;
             numToShow =
               (case flag of
                  None \<Rightarrow> int (length h)
                | Some f \<Rightarrow>
                    (case parseInt P f of
                       None \<Rightarrow> int (length h)
                     | Some n \<Rightarrow> if n > 0 then n else int (length h)));
             startIndex = nat (max 0 (int (length h) - numToShow));
             output = history_loop h startIndex []
         in case writeOutput output outputStream w of (os, w') \<Rightarrow> (os, hm, w')))"

text \<open>
  \<open>executeBuiltin\<close>. Its \<open>inputStream\<close> argument is only resumed (drained and discarded),
  which changes nothing that is modelled here, so it is left out.
\<close>

definition executeBuiltin ::
  "platform \<Rightarrow> string \<Rightarrow> string list \<Rightarrow> out_stream option \<Rightarrow> history_manager \<Rightarrow> world
   \<Rightarrow> out_stream option \<times> history_manager \<times> world" where
  "executeBuiltin P command args outputStream hm w =
     (if command = ''echo'' then
        (case executeEcho args outputStream w of (os, w') \<Rightarrow> (os, hm, w'))
      else if command = ''pwd'' then
        (case executePwd args outputStream w of (os, w') \<Rightarrow> (os, hm, w'))
      else if command = ''cd'' then
        (case executeCd P args outputStream w of (os, w') \<Rightarrow> (os, hm, w'))
      else if command = ''type'' then
        (case executeType P args outputStream w of (os, w') \<Rightarrow> (os, hm, w'))
      else if command = ''history'' then executeHistory P args outputStream hm w
      else (outputStream, hm, w))"

subsection \<open>\<open>cd\<close> without a home directory\<close>

text \<open>
  Claim C8: \<open>cd\<close> with no argument while \<open>HOME\<close> is unset emits exactly
  \<open>cd: HOME not set\<close> and a newline (on standard output, or on the output stream of its
  pipeline stage, which it ends) and leaves the working directory unchanged.
\<close>

theorem executeCd_HOME_not_set:
  "executeCd P [] None (w\<lparr>env_HOME := None\<rparr>) =
     (None, w\<lparr>env_HOME := None, stdout := stdout w @ ''cd: HOME not set'' @ [NEWLINE]\<rparr>) \<and>
   executeCd P [] (Some st) (w\<lparr>env_HOME := None\<rparr>) =
     (Some (stream_end (stream_write (''cd: HOME not set'' @ [NEWLINE]) st)), w\<lparr>env_HOME := None\<rparr>) \<and>
   cwd (snd (executeCd P [] outputStream (w\<lparr>env_HOME := None\<rparr>))) = cwd w"
  by (cases outputStream)
    (simp_all add: executeCd_def truthy_def writeOutput_def process_stdout_write_def)

subsection \<open>The history listing\<close>

lemma history_loop_listing:
  "history_loop h i acc = acc @ concat (map (history_line h) [i..<length h])"
proof (induction h i acc rule: history_loop.induct)
  case (1 h i acc)
  show ?case
  proof (cases "i < length h")
    case True
    with 1 show ?thesis
      by (subst history_loop.simps) (simp add: upt_conv_Cons)
  next
    case False
    then show ?thesis by (subst history_loop.simps) simp
  qed
qed

text \<open>
  \<open>parseInt\<close> skips white space before the number, a no-break space as well as a space or
  a tab, and stops at the first character that is no digit.
\<close>

lemma parseInt10_skips_white_space:
  "parseInt10 [CHR 0xA0, CHR ''1''] = Some 1 \<and>
   parseInt10 ([SPACE, TAB] @ ''-12abc'') = Some (- 12) \<and>
   parseInt10 [CHR 0xA0] = None"
  by (simp add: parseInt10_def js_whitespace_def is_digit_def digits_value_def digit_value_def)

text \<open>
  With the argument \<open>NBSP 1\<close> the count is one: the listing is the last entry only, not the
  whole history.
\<close>

lemma executeHistory_count_after_white_space:
  "stdout (snd (snd (executeHistory open_platform [[CHR 0xA0, CHR ''1'']] None two_entries fresh_world))) =
     ''    2  echo hi'' @ [NEWLINE]"
  by (simp add: executeHistory_def getHistory_def open_platform_def parseInt10_def
      js_whitespace_def is_digit_def digits_value_def digit_value_def two_entries_def
      addCommand_def createHistoryManager_def history_loop.simps history_line_def
      show_nat.simps digit_char_def writeOutput_def process_stdout_write_def fresh_world_def)

text \<open>
  Claim C10: when the first argument of \<open>history\<close> is none of \<open>-r\<close>, \<open>-w\<close>, \<open>-a\<close> and
  \<open>parseInt\<close> gives \<open>NaN\<close> or a number that is not positive for it, the command does what it
  does with no argument: it writes the whole history, every entry with its 1-based index.
\<close>

theorem executeHistory_count_not_positive:
  assumes "flag \<notin> {''-r'', ''-w'', ''-a''}"
    and "\<forall>n. parseInt P flag = Some n \<longrightarrow> n \<le> 0"
  shows "executeHistory P (flag # more_args) outputStream hm w = executeHistory P [] outputStream hm w \<and>
         executeHistory P [] outputStream hm w =
           (case writeOutput (concat (map (history_line (history hm)) [0..<length (history hm)]))
                   outputStream w of (os, w') \<Rightarrow> (os, hm, w'))"
proof -
  have n: "(case parseInt P flag of None \<Rightarrow> int (length (history hm))
            | Some n \<Rightarrow> if n > 0 then n else int (length (history hm))) = int (length (history hm))"
    using assms(2) by (cases "parseInt P flag") auto
  have a: "executeHistory P (flag # more_args) outputStream hm w =
           (case writeOutput (history_loop (history hm) 0 []) outputStream w of (os, w') \<Rightarrow> (os, hm, w'))"
    using assms(1) by (simp add: executeHistory_def getHistory_def n)
  have b: "executeHistory P [] outputStream hm w =
           (case writeOutput (history_loop (history hm) 0 []) outputStream w of (os, w') \<Rightarrow> (os, hm, w'))"
    by (simp add: executeHistory_def getHistory_def)
  show ?thesis by (simp add: a b history_loop_listing)
qed

theorem executeHistory_count_not_positive_witness:
  "parseInt open_platform ''0'' = Some 0 \<and> parseInt open_platform ''-5'' = Some (- 5) \<and>
   parseInt open_platform ''abc'' = None \<and> parseInt open_platform ''2'' = Some 2 \<and>
   executeHistory open_platform [''0''] None two_entries fresh_world =
     executeHistory open_platform [] None two_entries fresh_world \<and>
   executeHistory open_platform [''-5''] None two_entries fresh_world =
     executeHistory open_platform [] None two_entries fresh_world \<and>
   executeHistory open_platform [''abc'', ''x''] None two_entries fresh_world =
     executeHistory open_platform [] None two_entries fresh_world \<and>
   stdout (snd (snd (executeHistory open_platform [] None two_entries fresh_world))) =
     ''    1  ls -l'' @ [NEWLINE] @ ''    2  echo hi'' @ [NEWLINE]"
proof -
  have p: "parseInt open_platform ''0'' = Some 0" "parseInt open_platform ''-5'' = Some (- 5)"
    "parseInt open_platform ''abc'' = None" "parseInt open_platform ''2'' = Some 2"
    by (simp_all add: open_platform_def parseInt10_def js_whitespace_def is_digit_def
        digits_value_def digit_value_def)
  have h: "history two_entries = [''ls -l'', ''echo hi'']"
    by (simp add: two_entries_def addCommand_def createHistoryManager_def)
  have l: "concat (map (history_line (history two_entries)) [0..<length (history two_entries)]) =
     ''    1  ls -l'' @ [NEWLINE] @ ''    2  echo hi'' @ [NEWLINE]"
    by (simp add: h history_line_def show_nat.simps digit_char_def upt_conv_Cons)
  from executeHistory_count_not_positive [of "''0''" open_platform "[]" None two_entries fresh_world]
    executeHistory_count_not_positive [of "''-5''" open_platform "[]" None two_entries fresh_world]
    executeHistory_count_not_positive [of "''abc''" open_platform "[''x'']" None two_entries fresh_world]
  show ?thesis
    by (simp add: p l writeOutput_def process_stdout_write_def fresh_world_def)
qed

section \<open>Executor (command/executor.js)\<close>

text \<open>
  The executor runs inside the shell: it reads and writes the process state and the
  history manager, and it calls the completion callback \<open>onComplete\<close> (in index.js the
  callback prints the next prompt). \<open>completions\<close> counts the calls of the callback.
\<close>

record shell =
  proc :: world
  manager :: history_manager
  completions :: nat

definition onComplete :: "shell \<Rightarrow> shell" where
  "onComplete sh = sh\<lparr>completions := completions sh + 1\<rparr>"

text \<open>A spawned child: the arguments of \<open>spawn(fullPath, args, {stdio, argv0})\<close>.\<close>

datatype stdio = Inherit | Pipe

record child_process =
  spawn_file :: string
  spawn_args :: "string list"
  spawn_argv0 :: string
  spawn_stdio :: "stdio \<times> stdio \<times> stdio"

subsection \<open>\<open>executeSingleCommand\<close>\<close>







subsection \<open>\<open>executePipeline\<close>\<close>

text \<open>
  An entry of \<open>processes\<close>. Every internal command returns \<open>Promise.resolve()\<close>, so the
  promise of a \<open>BuiltinEntry\<close> is resolved when the entry is made.
\<close>

datatype pipeline_entry = BuiltinEntry | ExternalEntry child_process

text \<open>An entry of \<open>streams\<close>: the \<open>PassThrough\<close> of an internal stage or a child's stdout.\<close>

datatype pipe_stream = PassThrough out_stream | ChildStdout child_process

text \<open>
  The variables of \<open>executePipeline\<close> that its handlers close over. \<open>listening\<close> holds once
  \<open>processes.forEach\<close> has attached the handlers. \<open>terminated\<close> is not a variable of the
  source: it records, in order, the stages that have signalled termination (the promise
  of an internal stage resolved, a \<open>close\<close> or \<open>error\<close> event of a child).
\<close>

record pipeline_run =
  processes :: "pipeline_entry list"
  streams :: "pipe_stream list"
  listening :: bool
  completedCount :: nat
  totalProcesses :: nat
  terminated :: "nat list"

definition new_pipeline_run :: pipeline_run where
  "new_pipeline_run = \<lparr>processes = [], streams = [], listening = False, completedCount = 0,
                        totalProcesses = 0, terminated = []\<rparr>"

text \<open>
  How the set-up of a pipeline leaves the function: \<open>Wired\<close> when the loop has run through
  every stage, \<open>ReturnedEarly\<close> at the \<open>return\<close> after \<open>command not found\<close>, \<open>Threw\<close> for an
  exception that nothing catches.
\<close>

datatype setup_outcome = Wired | ReturnedEarly | Threw

text \<open>
  The body of the \<open>for\<close> loop for stage \<open>i\<close> of \<open>n\<close>, on \<open>stageTokens = commands[i]\<close>. The piping of one stage's output into
  the next stage's input moves bytes only and is not modelled. An internal stage writes
  to its \<open>PassThrough\<close> after pushing it; the model pushes the stream as the command leaves
  it. For a stage without tokens \<open>command\<close> is \<open>undefined\<close>: no internal command, and
  \<open>path.join(dir, undefined)\<close> throws in \<open>findCommandInPath\<close> unless \<open>PATH\<close> has no
  directory.
\<close>

definition pipeline_stage ::
  "platform \<Rightarrow> nat \<Rightarrow> nat \<Rightarrow> string list \<Rightarrow> pipeline_run \<times> shell
   \<Rightarrow> setup_outcome \<times> pipeline_run \<times> shell" where
  "pipeline_stage P n i stageTokens st =
     (case st of (run, sh) \<Rightarrow>
      (let isFirstCommand = (i = 0); isLastCommand = (i = n - 1) in
       case stageTokens of
         [] \<Rightarrow>
           if pathDirs (proc sh) = [] then
             (ReturnedEarly, run,
              onComplete (sh\<lparr>proc := console_log ''undefined: command not found'' (proc sh)\<rparr>))
           else (Threw, run, sh)
       | command # args \<Rightarrow>
           if isBuiltin command then
             (case executeBuiltin P command args
                     (if \<not> isLastCommand then Some new_PassThrough else None)
                     (manager sh) (proc sh)
              of (os, hm', w') \<Rightarrow>
                (Wired,
                 run\<lparr>processes := processes run @ [BuiltinEntry],
                     streams := streams run @ (case os of Some s \<Rightarrow> [PassThrough s] | None \<Rightarrow> []),
                     terminated := terminated run @ [i]\<rparr>,
                 sh\<lparr>proc := w', manager := hm'\<rparr>))
           else
             (case findCommandInPath P (proc sh) command of
                None \<Rightarrow>
                  (ReturnedEarly, run,
                   onComplete (sh\<lparr>proc := console_log (command @ '': command not found'') (proc sh)\<rparr>))
              | Some fullPath \<Rightarrow>
                  (let stdioConfig =
                         (if isFirstCommand then (Inherit, Pipe, Inherit)
                          else if isLastCommand then (Pipe, Inherit, Inherit)
                          else (Pipe, Pipe, Inherit));
                       child = \<lparr>spawn_file = fullPath, spawn_args = args, spawn_argv0 = command,
                                spawn_stdio = stdioConfig\<rparr>
                   in (Wired,
                       run\<lparr>processes := processes run @ [ExternalEntry child],
                           streams := streams run @
                             (if \<not> isLastCommand \<and> fst (snd stdioConfig) = Pipe
                              then [ChildStdout child] else [])\<rparr>,
                       sh)))))"

text \<open>The \<open>for (let i = 0; i < commands.length; i++)\<close> loop from stage \<open>i\<close> on.\<close>

fun pipeline_stages ::
  "platform \<Rightarrow> nat \<Rightarrow> nat \<Rightarrow> string list list \<Rightarrow> pipeline_run \<times> shell
   \<Rightarrow> setup_outcome \<times> pipeline_run \<times> shell" where
  "pipeline_stages P n i [] st = (Wired, st)"
| "pipeline_stages P n i (stageTokens # later) st =
     (case pipeline_stage P n i stageTokens st of
        (Wired, st') \<Rightarrow> pipeline_stages P n (i + 1) later st'
      | stopped \<Rightarrow> stopped)"

definition executePipeline ::
  "platform \<Rightarrow> string list list \<Rightarrow> shell \<Rightarrow> setup_outcome \<times> pipeline_run \<times> shell" where
  "executePipeline P commands sh =
     (if length commands = 0 then (ReturnedEarly, new_pipeline_run, onComplete sh)
      else
        (case pipeline_stages P (length commands) 0 commands (new_pipeline_run, sh) of
           (Wired, run, sh') \<Rightarrow>
             (Wired, run\<lparr>totalProcesses := length (processes run), listening := True\<rparr>, sh')
         | stopped \<Rightarrow> stopped))"

text \<open>
  What the event loop delivers to a pipeline: the \<open>close\<close> or \<open>error\<close> event of the child
  of stage \<open>i\<close>, or the reaction \<open>promise.then(checkCompletion)\<close> of the internal stage \<open>i\<close>.
\<close>

datatype pipeline_event = Close nat | Error nat string | Settled nat

definition checkCompletion :: "pipeline_run \<times> shell \<Rightarrow> pipeline_run \<times> shell" where
  "checkCompletion st =
     (case st of (run, sh) \<Rightarrow>
        (run\<lparr>completedCount := completedCount run + 1\<rparr>,
         if completedCount run + 1 = totalProcesses run then onComplete sh else sh))"

definition is_external :: "pipeline_run \<Rightarrow> nat \<Rightarrow> bool" where
  "is_external run i = (i < length (processes run) \<and> processes run ! i \<noteq> BuiltinEntry)"

definition is_internal :: "pipeline_run \<Rightarrow> nat \<Rightarrow> bool" where
  "is_internal run i = (i < length (processes run) \<and> processes run ! i = BuiltinEntry)"

text \<open>
  A child's event is the stage's termination signal whether or not a handler listens;
  the handlers run only once they are attached.
\<close>

fun deliver :: "pipeline_event \<Rightarrow> pipeline_run \<times> shell \<Rightarrow> pipeline_run \<times> shell" where
  "deliver (Close i) (run, sh) =
     (if \<not> is_external run i then (run, sh)
      else if listening run then checkCompletion (run\<lparr>terminated := terminated run @ [i]\<rparr>, sh)
      else (run\<lparr>terminated := terminated run @ [i]\<rparr>, sh))"
| "deliver (Error i message) (run, sh) =
     (if \<not> is_external run i then (run, sh)
      else if listening run then
        checkCompletion (run\<lparr>terminated := terminated run @ [i]\<rparr>,
                         sh\<lparr>proc := console_error (''Error: '' @ message) (proc sh)\<rparr>)
      else (run\<lparr>terminated := terminated run @ [i]\<rparr>, sh))"
| "deliver (Settled i) (run, sh) =
     (if is_internal run i \<and> listening run then checkCompletion (run, sh) else (run, sh))"

subsection \<open>Closed examples\<close>

text \<open>
  A shell that has run nothing yet. On \<open>open_platform\<close> with the search path of
  \<open>fresh_world\<close>, \<open>cat\<close> is found at \<open>/bin/cat\<close> and \<open>nosuch\<close> is not found.
\<close>

definition idle_shell :: shell where
  "idle_shell = \<lparr>proc = fresh_world, manager = createHistoryManager, completions = 0\<rparr>"

lemma pathDirs_fresh: "pathDirs fresh_world = [''/usr/bin'', ''/bin'']"
  by (simp add: pathDirs_def fresh_world_def)

lemma find_cat: "findCommandInPath open_platform fresh_world ''cat'' = Some ''/bin/cat''"
  by (simp add: findCommandInPath_def pathDirs_fresh open_platform_def)

lemma find_nosuch: "findCommandInPath open_platform fresh_world ''nosuch'' = None"
  by (simp add: findCommandInPath_def pathDirs_fresh open_platform_def)

text \<open>The child that the first stage \<open>cat\<close> of a pipeline spawns.\<close>

definition cat_child :: child_process where
  "cat_child = \<lparr>spawn_file = ''/bin/cat'', spawn_args = [], spawn_argv0 = ''cat'',
                 spawn_stdio = (Inherit, Pipe, Inherit)\<rparr>"



subsection \<open>Where the diagnostics go\<close>































































subsection \<open>When the completion callback runs\<close>

text \<open>
  An event is a termination signal of the pipeline when it belongs to one of its stages:
  \<open>close\<close> or \<open>error\<close> for a stage with a child, the promise reaction for an internal
  stage.
\<close>

definition signals :: "pipeline_run \<Rightarrow> pipeline_event \<Rightarrow> bool" where
  "signals run ev =
     (case ev of Close i \<Rightarrow> is_external run i | Error i message \<Rightarrow> is_external run i
      | Settled i \<Rightarrow> is_internal run i)"

definition deliver_all :: "pipeline_event list \<Rightarrow> pipeline_run \<times> shell \<Rightarrow> pipeline_run \<times> shell" where
  "deliver_all evs st = foldl (\<lambda>st ev. deliver ev st) st evs"

lemma pipeline_stage_wired:
  assumes "pipeline_stage P n i stageTokens (run, sh) = (Wired, run', sh')"
  shows "completions sh' = completions sh \<and> length (processes run') = Suc (length (processes run)) \<and>
         listening run' = listening run \<and> completedCount run' = completedCount run"
  using assms unfolding pipeline_stage_def Let_def
  by (auto split: list.splits if_splits prod.splits option.splits)

lemma pipeline_stages_wired:
  "pipeline_stages P n i commands (run, sh) = (Wired, run', sh') \<Longrightarrow>
   completions sh' = completions sh \<and> length (processes run') = length (processes run) + length commands \<and>
   listening run' = listening run \<and> completedCount run' = completedCount run"
proof (induction commands arbitrary: i run sh)
  case Nil
  then show ?case by simp
next
  case (Cons c cs)
  obtain o1 run1 sh1 where st: "pipeline_stage P n i c (run, sh) = (o1, run1, sh1)"
    by (cases "pipeline_stage P n i c (run, sh)") auto
  with Cons.prems have w: "o1 = Wired" by (cases o1) simp_all
  with Cons.prems st have "pipeline_stages P n (i + 1) cs (run1, sh1) = (Wired, run', sh')" by simp
  from Cons.IH [OF this] pipeline_stage_wired [OF st [unfolded w]] show ?case by simp
qed

lemma executePipeline_wired:
  assumes "executePipeline P commands sh = (Wired, run, sh')"
  shows "completions sh' = completions sh \<and> length (processes run) = length commands \<and>
         totalProcesses run = length commands \<and> listening run \<and> completedCount run = 0 \<and>
         commands \<noteq> []"
proof -
  from assms have ne: "commands \<noteq> []" by (auto simp: executePipeline_def)
  obtain o1 run1 sh1 where st:
    "pipeline_stages P (length commands) 0 commands (new_pipeline_run, sh) = (o1, run1, sh1)"
    by (cases "pipeline_stages P (length commands) 0 commands (new_pipeline_run, sh)") auto
  with assms ne have w: "o1 = Wired" by (cases o1) (simp_all add: executePipeline_def)
  from assms ne st w have r: "run = run1\<lparr>totalProcesses := length (processes run1), listening := True\<rparr>"
    and s: "sh' = sh1" by (simp_all add: executePipeline_def)
  from pipeline_stages_wired [OF st [unfolded w]] r s ne show ?thesis
    by (simp add: new_pipeline_run_def)
qed

lemma deliver_signal:
  assumes "listening run" and "signals run ev" and "deliver ev (run, sh) = (run', sh')"
  shows "completedCount run' = Suc (completedCount run) \<and>
         completions sh' = completions sh + (if Suc (completedCount run) = totalProcesses run then 1 else 0) \<and>
         processes run' = processes run \<and> listening run' \<and> totalProcesses run' = totalProcesses run"
  using assms
  by (cases ev) (auto simp: signals_def checkCompletion_def onComplete_def)

lemma deliver_all_signals:
  assumes "listening run" and "\<forall>ev \<in> set evs. signals run ev"
    and "deliver_all evs (run, sh) = (run', sh')"
  shows "completedCount run' = completedCount run + length evs \<and>
         completions sh' = completions sh +
           (if completedCount run < totalProcesses run \<and>
               totalProcesses run \<le> completedCount run + length evs then 1 else 0) \<and>
         processes run' = processes run \<and> listening run' \<and> totalProcesses run' = totalProcesses run"
  using assms
proof (induction evs arbitrary: run sh)
  case Nil
  then show ?case by (simp add: deliver_all_def)
next
  case (Cons ev evs)
  obtain run1 sh1 where d: "deliver ev (run, sh) = (run1, sh1)"
    by (cases "deliver ev (run, sh)") auto
  from Cons.prems have sg: "signals run ev" by simp
  note one = deliver_signal [OF Cons.prems(1) sg d]
  from one Cons.prems(2) have all1: "\<forall>ev \<in> set evs. signals run1 ev"
    by (auto simp: signals_def is_external_def is_internal_def split: pipeline_event.splits)
  from Cons.prems(3) d have rest1: "deliver_all evs (run1, sh1) = (run', sh')"
    by (simp add: deliver_all_def)
  from one have l1: "listening run1" by simp
  from Cons.IH [OF l1 all1 rest1] one show ?case by auto
qed


text \<open>The stage that an event belongs to.\<close>

fun stage_of :: "pipeline_event \<Rightarrow> nat" where
  "stage_of (Close i) = i"
| "stage_of (Error i message) = i"
| "stage_of (Settled i) = i"

lemma signals_stage: "signals run ev \<Longrightarrow> stage_of ev < length (processes run)"
  by (cases ev) (simp_all add: signals_def is_external_def is_internal_def)

text \<open>
  When no stage signals twice, as many signals as there are stages are the signals of all
  the stages.
\<close>

lemma all_stages_signalled:
  assumes "\<forall>ev \<in> set evs. signals run ev" and "distinct (map stage_of evs)"
    and "length evs = length (processes run)"
  shows "stage_of ` set evs = {..<length (processes run)}"
proof -
  have sub: "stage_of ` set evs \<subseteq> {..<length (processes run)}"
    using assms(1) by (auto dest: signals_stage)
  have "card (stage_of ` set evs) = length (map stage_of evs)"
    using distinct_card [OF assms(2)] by simp
  with assms(3) have "card (stage_of ` set evs) = card {..<length (processes run)}" by simp
  with sub show ?thesis by (intro card_subset_eq) simp_all
qed

text \<open>
  On the path on which every stage is an internal command or a program found on the
  search path, the set-up does not call the callback, and the callback runs exactly once,
  with the termination signal that brings the count to the number of stages. When each
  stage signals once, that is the signal of the last stage still running.
\<close>

lemma executePipeline_wired_completes_once:
  assumes "executePipeline P commands sh = (Wired, run, sh1)"
    and "\<forall>ev \<in> set evs. signals run ev"
    and "deliver_all evs (run, sh1) = (run', sh')"
  shows "completions sh1 = completions sh \<and>
         completions sh' = completions sh + (if length commands \<le> length evs then 1 else 0)"
proof -
  note w = executePipeline_wired [OF assms(1)]
  from w have l: "listening run" by simp
  from deliver_all_signals [OF l assms(2) assms(3)] w show ?thesis by auto
qed

text \<open>
  Claim C1 (the completion callback runs exactly once and not before every stage has
  signalled termination), evaluated on the plan \<open>cat | nosuch\<close>: the first stage is
  spawned, the second is not found, and \<open>executePipeline\<close> prints
  \<open>nosuch: command not found\<close>, calls the callback and returns. The callback has run once
  while the child of stage 0 has not signalled and no handler is attached to it; its
  \<open>close\<close> event arrives afterwards.
\<close>

theorem executePipeline_completes_before_close:
  "executePipeline open_platform [[''cat''], [''nosuch'']] idle_shell =
     (ReturnedEarly,
      \<lparr>processes = [ExternalEntry cat_child], streams = [ChildStdout cat_child],
       listening = False, completedCount = 0, totalProcesses = 0, terminated = []\<rparr>,
      \<lparr>proc = console_log ''nosuch: command not found'' fresh_world,
       manager = createHistoryManager, completions = 1\<rparr>) \<and>
   0 \<notin> set (terminated (fst (snd
         (executePipeline open_platform [[''cat''], [''nosuch'']] idle_shell)))) \<and>
   deliver (Close 0) (snd (executePipeline open_platform [[''cat''], [''nosuch'']] idle_shell)) =
     (\<lparr>processes = [ExternalEntry cat_child], streams = [ChildStdout cat_child],
       listening = False, completedCount = 0, totalProcesses = 0, terminated = [0]\<rparr>,
      \<lparr>proc = console_log ''nosuch: command not found'' fresh_world,
       manager = createHistoryManager, completions = 1\<rparr>)"
proof -
  have run: "executePipeline open_platform [[''cat''], [''nosuch'']] idle_shell =
     (ReturnedEarly,
      \<lparr>processes = [ExternalEntry cat_child], streams = [ChildStdout cat_child],
       listening = False, completedCount = 0, totalProcesses = 0, terminated = []\<rparr>,
      \<lparr>proc = console_log ''nosuch: command not found'' fresh_world,
       manager = createHistoryManager, completions = 1\<rparr>)"
    by (simp add: executePipeline_def pipeline_stage_def idle_shell_def isBuiltin_def
        BUILTINS_def find_cat find_nosuch new_pipeline_run_def cat_child_def onComplete_def
        Let_def)
  show ?thesis by (simp add: run is_external_def)
qed

end
